theory Spec2Isabelle
  imports Complex_Main "HOL-Library.Multiset"
begin

section \<open>Values, errors and responses\<close>

text \<open>
  The request fields the handlers read (\<open>req.body\<close>, \<open>req.query\<close>) are the values
  a JSON body or a query string parses to: \<open>null\<close>, booleans, numbers, strings,
  arrays and plain objects, and \<open>undefined\<close> for a key that is absent. Strings are
  lists of 8-bit code units. An object is the list of its own properties, each key once.
\<close>

text \<open>
  A number parsed from JSON: a finite value, negative zero, or an infinity (a literal
  beyond the range of a double); never \<open>NaN\<close>.
\<close>

datatype js_number = Num rat | NegZero | PosInf | NegInf

datatype jsval =
    JUndefined
  | JNull
  | JBool bool
  | JNum js_number
  | JStr string
  | JArr "jsval list"
  | JObj "(string \<times> jsval) list"

fun truthy :: "jsval \<Rightarrow> bool" where
  "truthy JUndefined = False"
| "truthy JNull = False"
| "truthy (JBool b) = b"
| "truthy (JNum k) = (k \<noteq> Num 0 \<and> k \<noteq> NegZero)"
| "truthy (JStr s) = (s \<noteq> [])"
| "truthy (JArr xs) = True"
| "truthy (JObj kvs) = True"

text \<open>\<open>ARRAY.includes(v)\<close> for an array of strings: only a string can be a member.\<close>

fun js_includes :: "string list \<Rightarrow> jsval \<Rightarrow> bool" where
  "js_includes xs (JStr s) = List.member xs s"
| "js_includes xs v = False"

definition VALID_STATUSES :: "string list" where
  "VALID_STATUSES = [''pending'', ''in_progress'', ''completed'']"

definition VALID_PRIORITIES :: "string list" where
  "VALID_PRIORITIES = [''low'', ''medium'', ''high'']"

text \<open>
  A thrown JavaScript error, as far as \<open>errorHandler\<close> reads it: \<open>err.name\<close>,
  \<open>err.status\<close> (absent on every error thrown here) and \<open>err.message\<close>.
\<close>

record js_error =
  err_name :: string
  err_status :: "nat option"
  err_message :: string

text \<open>Reading a property of \<open>null\<close>, or calling a method the value does not have.\<close>

definition TypeError :: "string \<Rightarrow> js_error" where
  "TypeError m = \<lparr> err_name = ''TypeError'', err_status = None, err_message = m \<rparr>"

text \<open>What the store driver throws when the arguments do not fit the placeholders.\<close>

definition RangeError :: "string \<Rightarrow> js_error" where
  "RangeError m = \<lparr> err_name = ''RangeError'', err_status = None, err_message = m \<rparr>"

text \<open>What the store driver throws when a constraint of the schema fails.\<close>

definition SqliteError :: "string \<Rightarrow> js_error" where
  "SqliteError m = \<lparr> err_name = ''SqliteError'', err_status = None, err_message = m \<rparr>"

text \<open>What the password hashing library throws on a non-string password.\<close>

definition IllegalArguments :: js_error where
  "IllegalArguments = \<lparr> err_name = ''Error'', err_status = None,
     err_message = ''Illegal arguments'' \<rparr>"

section \<open>What the service calls\<close>

record identity =
  i_id :: string
  i_email :: jsval

text \<open>
  The libraries and conversions the service relies on are parameters: password hashing
  and comparison, token signing, token verification (which returns the decoded payload
  or the error it throws), the text the engine stores for a number that reaches a
  \<open>TEXT\<close> column, and the language's \<open>v < n\<close> for a value \<open>v\<close> that is a string, an
  array or an object (conversion to a primitive and to a number, which may throw).
\<close>

record env =
  bcrypt_hash :: "string \<Rightarrow> string"
  bcrypt_compare :: "string \<Rightarrow> string \<Rightarrow> bool"
  jwt_sign :: "identity \<Rightarrow> string"
  jwt_verify :: "string \<Rightarrow> js_error + identity"
  sqlite_text :: "js_number \<Rightarrow> string"
  js_less :: "jsval \<Rightarrow> nat \<Rightarrow> js_error + bool"

section \<open>The store: \<open>src/db/database.js\<close>\<close>

text \<open>
  One record per row of the two tables. Timestamps (\<open>datetime('now')\<close>) are seconds
  on a clock the caller supplies; \<open>TEXT\<close> columns that may be \<open>NULL\<close> are options.
\<close>

record user =
  u_id :: string
  u_email :: string
  u_password :: string
  u_name :: string
  u_created_at :: nat

record task =
  t_id :: string
  t_user_id :: string
  t_title :: string
  t_description :: "string option"
  t_status :: string
  t_priority :: string
  t_due_date :: "string option"
  t_created_at :: nat
  t_updated_at :: nat

record db =
  users :: "user list"
  tasks :: "task list"

definition empty_db :: db where
  "empty_db = \<lparr> users = [], tasks = [] \<rparr>"

subsection \<open>Binding the arguments of a statement\<close>

text \<open>
  One value bound to one placeholder. The driver binds a string, a number and \<open>null\<close>
  (and \<open>undefined\<close>, as \<open>NULL\<close>; no handler passes it); every column the statements
  touch has \<open>TEXT\<close> affinity, so a number arrives as the engine's text for it. Any
  other value is refused.
\<close>

fun bind_value :: "env \<Rightarrow> jsval \<Rightarrow> js_error + string option" where
  "bind_value E (JStr s) = Inr (Some s)"
| "bind_value E (JNum k) = Inr (Some (sqlite_text E k))"
| "bind_value E JNull = Inr None"
| "bind_value E JUndefined = Inr None"
| "bind_value E v =
     Inl (TypeError ''SQLite3 can only bind numbers, strings, bigints, buffers, and null'')"

text \<open>
  The value goes to the next placeholder; \<open>acc\<close> holds the values bound so far and
  \<open>n\<close> is the number of placeholders of the statement.
\<close>

definition bind_next ::
  "env \<Rightarrow> nat \<Rightarrow> jsval \<Rightarrow> string option list \<Rightarrow> js_error + string option list" where
  "bind_next E n v acc =
     (case bind_value E v of
        Inl e \<Rightarrow> Inl e
      | Inr p \<Rightarrow>
          if n \<le> length acc then Inl (RangeError ''Too many parameter values were provided'')
          else Inr (acc @ [p]))"

fun bind_array ::
  "env \<Rightarrow> nat \<Rightarrow> jsval list \<Rightarrow> string option list \<Rightarrow> js_error + string option list" where
  "bind_array E n [] acc = Inr acc"
| "bind_array E n (x # xs) acc =
     (case bind_next E n x acc of Inl e \<Rightarrow> Inl e | Inr acc' \<Rightarrow> bind_array E n xs acc')"

text \<open>
  The arguments of \<open>run\<close>, \<open>get\<close> and \<open>all\<close>, left to right. An array argument is
  a list of positional values: each element is bound to the next placeholder. A plain
  object argument carries named parameters, of which the statements here have none, so
  it binds nothing; a second one is refused. Any other argument is one positional
  value. At the end every placeholder must have its value.
\<close>

fun bind_args ::
  "env \<Rightarrow> nat \<Rightarrow> bool \<Rightarrow> jsval list \<Rightarrow> string option list \<Rightarrow> js_error + string option list"
where
  "bind_args E n seen [] acc =
     (if length acc < n then Inl (RangeError ''Too few parameter values were provided'')
      else Inr acc)"
| "bind_args E n seen (JArr xs # rest) acc =
     (case bind_array E n xs acc of
        Inl e \<Rightarrow> Inl e
      | Inr acc' \<Rightarrow> bind_args E n seen rest acc')"
| "bind_args E n seen (JObj kvs # rest) acc =
     (if seen
      then Inl (TypeError ''You cannot specify named parameters in two different objects'')
      else bind_args E n True rest acc)"
| "bind_args E n seen (v # rest) acc =
     (case bind_next E n v acc of Inl e \<Rightarrow> Inl e | Inr acc' \<Rightarrow> bind_args E n seen rest acc')"

definition bind_all :: "env \<Rightarrow> nat \<Rightarrow> jsval list \<Rightarrow> js_error + string option list" where
  "bind_all E n args = bind_args E n False args []"

subsection \<open>The statements\<close>

text \<open>A \<open>NOT NULL\<close> column refuses \<open>NULL\<close>.\<close>

fun not_null :: "string \<Rightarrow> string option \<Rightarrow> js_error + string" where
  "not_null c (Some s) = Inr s"
| "not_null c None = Inl (SqliteError (''NOT NULL constraint failed: '' @ c))"

text \<open>\<open>column = ?\<close>: a comparison with \<open>NULL\<close> is never true.\<close>

fun eq_param :: "string \<Rightarrow> string option \<Rightarrow> bool" where
  "eq_param x None = False"
| "eq_param x (Some s) = (x = s)"

text \<open>\<open>SELECT id FROM users WHERE email = ?\<close> and \<open>SELECT * FROM users WHERE email = ?\<close>\<close>

definition find_user_by_email :: "db \<Rightarrow> string option \<Rightarrow> user option" where
  "find_user_by_email d p = find (\<lambda>u. eq_param (u_email u) p) (users d)"

text \<open>
  \<open>INSERT INTO users (id, email, password, name) VALUES (?, ?, ?, ?)\<close> under the schema:
  \<open>id\<close> is the primary key, \<open>email\<close> is \<open>UNIQUE NOT NULL\<close>, \<open>password\<close> and \<open>name\<close>
  are \<open>NOT NULL\<close>, \<open>created_at\<close> defaults to the current time. The first value is
  the id the handler generated (the first argument, always a string).
\<close>

definition insert_user ::
  "nat \<Rightarrow> db \<Rightarrow> string \<Rightarrow> string option \<Rightarrow> string option \<Rightarrow> string option \<Rightarrow> js_error + db"
where
  "insert_user now d uid email pw name =
     (case not_null ''users.email'' email of Inl e \<Rightarrow> Inl e | Inr em \<Rightarrow>
      case not_null ''users.password'' pw of Inl e \<Rightarrow> Inl e | Inr pwd \<Rightarrow>
      case not_null ''users.name'' name of Inl e \<Rightarrow> Inl e | Inr nm \<Rightarrow>
      if list_ex (\<lambda>u. u_id u = uid) (users d)
        then Inl (SqliteError ''UNIQUE constraint failed: users.id'')
      else if list_ex (\<lambda>u. u_email u = em) (users d)
        then Inl (SqliteError ''UNIQUE constraint failed: users.email'')
      else Inr (d\<lparr> users := users d @
             [\<lparr> u_id = uid, u_email = em, u_password = pwd, u_name = nm,
                u_created_at = now \<rparr>] \<rparr>))"

text \<open>
  \<open>DELETE FROM users WHERE id = ?\<close> under the schema: the foreign key of \<open>tasks\<close> is
  declared \<open>ON DELETE CASCADE\<close>, so the tasks of the deleted user go with the row.
  No handler of the service issues this statement.
\<close>

definition delete_user :: "db \<Rightarrow> string \<Rightarrow> db" where
  "delete_user d uid =
     (if list_ex (\<lambda>u. u_id u = uid) (users d)
      then \<lparr> users = filter (\<lambda>u. u_id u \<noteq> uid) (users d),
             tasks = filter (\<lambda>t. t_user_id t \<noteq> uid) (tasks d) \<rparr>
      else d)"

text \<open>
  \<open>SELECT * FROM tasks WHERE id = ? AND user_id = ?\<close>, first row or nothing. Its two
  arguments are \<open>req.params.id\<close> and \<open>req.user.id\<close>, both strings.
\<close>

definition select_task_owned :: "db \<Rightarrow> string \<Rightarrow> string \<Rightarrow> task option" where
  "select_task_owned d tid uid = find (\<lambda>t. t_id t = tid \<and> t_user_id t = uid) (tasks d)"

text \<open>\<open>SELECT * FROM tasks WHERE id = ?\<close>, first row or nothing; the argument is a string.\<close>

definition select_task :: "db \<Rightarrow> string \<Rightarrow> task option" where
  "select_task d tid = find (\<lambda>t. t_id t = tid) (tasks d)"

text \<open>
  \<open>INSERT INTO tasks (id, user_id, title, description, status, priority, due_date)\<close>:
  \<open>id\<close> is the primary key, \<open>user_id\<close> references \<open>users(id)\<close>, \<open>user_id\<close>,
  \<open>title\<close>, \<open>status\<close> and \<open>priority\<close> are \<open>NOT NULL\<close>, both timestamps default to
  the current time. The driver's engine is built with foreign keys enforced, so an
  insert whose owner is not a row of \<open>users\<close> fails. The first value is the id the
  handler generated (the first argument, always a string).
\<close>

definition insert_task ::
  "nat \<Rightarrow> db \<Rightarrow> string \<Rightarrow> string option \<Rightarrow> string option \<Rightarrow> string option \<Rightarrow>
   string option \<Rightarrow> string option \<Rightarrow> string option \<Rightarrow> js_error + db" where
  "insert_task now d tid user_id title descr st pr due =
     (case not_null ''tasks.user_id'' user_id of Inl e \<Rightarrow> Inl e | Inr uid \<Rightarrow>
      case not_null ''tasks.title'' title of Inl e \<Rightarrow> Inl e | Inr ti \<Rightarrow>
      case not_null ''tasks.status'' st of Inl e \<Rightarrow> Inl e | Inr s \<Rightarrow>
      case not_null ''tasks.priority'' pr of Inl e \<Rightarrow> Inl e | Inr p \<Rightarrow>
      if list_ex (\<lambda>t. t_id t = tid) (tasks d)
        then Inl (SqliteError ''UNIQUE constraint failed: tasks.id'')
      else if \<not> list_ex (\<lambda>u. u_id u = uid) (users d)
        then Inl (SqliteError ''FOREIGN KEY constraint failed'')
      else Inr (d\<lparr> tasks := tasks d @
             [\<lparr> t_id = tid, t_user_id = uid, t_title = ti, t_description = descr,
                t_status = s, t_priority = p, t_due_date = due,
                t_created_at = now, t_updated_at = now \<rparr>] \<rparr>))"

text \<open>
  \<open>UPDATE tasks SET title = ?, description = ?, status = ?, priority = ?, due_date = ?,
  updated_at = datetime('now') WHERE id = ? AND user_id = ?\<close>
\<close>

definition update_task ::
  "nat \<Rightarrow> db \<Rightarrow> string option \<Rightarrow> string option \<Rightarrow> string option \<Rightarrow> string option \<Rightarrow>
   string option \<Rightarrow> string option \<Rightarrow> string option \<Rightarrow> js_error + db" where
  "update_task now d title descr st pr due w_id w_user =
     (if \<not> list_ex (\<lambda>t. eq_param (t_id t) w_id \<and> eq_param (t_user_id t) w_user) (tasks d)
      then Inr d
      else
      case not_null ''tasks.title'' title of Inl e \<Rightarrow> Inl e | Inr ti \<Rightarrow>
      case not_null ''tasks.status'' st of Inl e \<Rightarrow> Inl e | Inr s \<Rightarrow>
      case not_null ''tasks.priority'' pr of Inl e \<Rightarrow> Inl e | Inr p \<Rightarrow>
      Inr (d\<lparr> tasks := map (\<lambda>t. if eq_param (t_id t) w_id \<and> eq_param (t_user_id t) w_user
                 then t\<lparr> t_title := ti, t_description := descr, t_status := s,
                        t_priority := p, t_due_date := due, t_updated_at := now \<rparr>
                 else t) (tasks d) \<rparr>))"

text \<open>
  \<open>DELETE FROM tasks WHERE id = ? AND user_id = ?\<close>, with \<open>result.changes\<close>; both
  arguments are strings.
\<close>

definition delete_task :: "db \<Rightarrow> string \<Rightarrow> string \<Rightarrow> db \<times> nat" where
  "delete_task d tid uid =
     (let keep = filter (\<lambda>t. \<not> (t_id t = tid \<and> t_user_id t = uid)) (tasks d)
      in (d\<lparr> tasks := keep \<rparr>, length (tasks d) - length keep))"

text \<open>
  One optional condition \<open>AND col = ?\<close> of the list query: not in the query, or
  comparing with the value bound to its placeholder.
\<close>

fun cond :: "string option option \<Rightarrow> string \<Rightarrow> bool" where
  "cond None x = True"
| "cond (Some p) x = eq_param x p"

text \<open>The value of the next placeholder, when the query has the condition.\<close>

fun take_param ::
  "bool \<Rightarrow> string option list \<Rightarrow> string option option \<times> string option list" where
  "take_param False ps = (None, ps)"
| "take_param True [] = (Some None, [])"
| "take_param True (p # ps) = (Some p, ps)"

text \<open>
  \<open>SELECT * FROM tasks WHERE user_id = ? [AND status = ?] [AND priority = ?]
  ORDER BY created_at DESC\<close>, given which conditions the query has and the values bound
  to its placeholders. SQL leaves the order of rows with equal \<open>created_at\<close> open; the
  model takes one such order.
\<close>

definition select_tasks :: "db \<Rightarrow> bool \<Rightarrow> bool \<Rightarrow> string option list \<Rightarrow> task list" where
  "select_tasks d has_status has_priority ps =
     (case take_param True ps of (uid, ps1) \<Rightarrow>
      case take_param has_status ps1 of (st, ps2) \<Rightarrow>
      case take_param has_priority ps2 of (pr, ps3) \<Rightarrow>
        rev (sort_key t_created_at
          (filter (\<lambda>t. cond uid (t_user_id t) \<and> cond st (t_status t) \<and> cond pr (t_priority t))
             (tasks d))))"

section \<open>Responses and the error handler: \<open>src/middleware/errorHandler.js\<close>\<close>

text \<open>The JSON bodies the service sends, one constructor per shape.\<close>

datatype body =
    ErrorBody string string
  | TaskList nat "task list"
  | TaskBody task
  | MsgTask string "task option"
  | Msg string
  | AuthBody string string string jsval jsval

type_synonym response = "nat \<times> body"

text \<open>
  \<open>err.status || 500\<close>, \<open>err.name || 'InternalServerError'\<close>, and the generic message
  when the status is 500. Writing to the log is not modelled.
\<close>

definition errorHandler :: "js_error \<Rightarrow> response" where
  "errorHandler err =
     (let status = (case err_status err of None \<Rightarrow> 500 | Some n \<Rightarrow> if n = 0 then 500 else n)
      in (status,
          ErrorBody (if err_name err = [] then ''InternalServerError'' else err_name err)
                    (if status = 500
                     then ''An unexpected error occurred. Please try again later.''
                     else err_message err)))"

section \<open>String operations\<close>

text \<open>The white space \<open>String.prototype.trim\<close> removes, among 8-bit code units.\<close>

definition is_space :: "char \<Rightarrow> bool" where
  "is_space c \<longleftrightarrow> c = CHR 0x09 \<or> c = CHR 0x0A \<or> c = CHR 0x0B \<or> c = CHR 0x0C
     \<or> c = CHR 0x0D \<or> c = CHR 0x20 \<or> c = CHR 0xA0"

definition trim :: "string \<Rightarrow> string" where
  "trim s = rev (dropWhile is_space (rev (dropWhile is_space s)))"

text \<open>
  \<open>v.trim()\<close> on a request value: only a string has the method (a property \<open>trim\<close>
  of a parsed object is never a function).
\<close>

fun js_trim :: "jsval \<Rightarrow> js_error + string" where
  "js_trim (JStr s) = Inr (trim s)"
| "js_trim JNull = Inl (TypeError ''Cannot read properties of null (reading 'trim')'')"
| "js_trim JUndefined = Inl (TypeError ''Cannot read properties of undefined (reading 'trim')'')"
| "js_trim v = Inl (TypeError ''title.trim is not a function'')"

text \<open>\<open>k < n\<close> for a number \<open>k\<close>.\<close>

fun number_less :: "js_number \<Rightarrow> nat \<Rightarrow> bool" where
  "number_less (Num r) n = (r < of_nat n)"
| "number_less NegZero n = (0 < n)"
| "number_less PosInf n = False"
| "number_less NegInf n = True"

text \<open>
  \<open>v < n\<close> for any value: \<open>undefined\<close> converts to \<open>NaN\<close>, \<open>null\<close> and \<open>false\<close>
  to 0, \<open>true\<close> to 1; the conversion of the other values is the environment's.
\<close>

fun less_than :: "env \<Rightarrow> jsval \<Rightarrow> nat \<Rightarrow> js_error + bool" where
  "less_than E JUndefined n = Inr False"
| "less_than E JNull n = Inr (0 < n)"
| "less_than E (JBool b) n = Inr ((if b then 1 else 0) < n)"
| "less_than E (JNum k) n = Inr (number_less k n)"
| "less_than E v n = js_less E v n"

text \<open>
  \<open>v.length < n\<close>: a string and an array have a length, an object has the property
  when it has the key, a boolean and a number have none.
\<close>

fun length_less :: "env \<Rightarrow> jsval \<Rightarrow> nat \<Rightarrow> js_error + bool" where
  "length_less E (JStr s) n = Inr (length s < n)"
| "length_less E (JArr xs) n = Inr (length xs < n)"
| "length_less E (JObj kvs) n =
     (case map_of kvs ''length'' of None \<Rightarrow> Inr False | Some v \<Rightarrow> less_than E v n)"
| "length_less E (JBool b) n = Inr False"
| "length_less E (JNum k) n = Inr False"
| "length_less E JNull n = Inl (TypeError ''Cannot read properties of null (reading 'length')'')"
| "length_less E JUndefined n =
     Inl (TypeError ''Cannot read properties of undefined (reading 'length')'')"

text \<open>\<open>a || b\<close>\<close>

definition js_or :: "jsval \<Rightarrow> jsval \<Rightarrow> jsval" where
  "js_or a b = (if truthy a then a else b)"

text \<open>A column value read back from a row.\<close>

fun col :: "string option \<Rightarrow> jsval" where
  "col None = JNull"
| "col (Some s) = JStr s"

text \<open>\<open>s.split(' ')\<close>: the pieces between single spaces; never the empty list.\<close>

fun split_sp :: "string \<Rightarrow> string list" where
  "split_sp [] = [[]]"
| "split_sp (c # cs) =
     (if c = CHR '' '' then [] # split_sp cs
      else (case split_sp cs of [] \<Rightarrow> [[c]] | p # ps \<Rightarrow> (c # p) # ps))"

text \<open>\<open>xs.join(', ')\<close>\<close>

fun join_comma :: "string list \<Rightarrow> string" where
  "join_comma [] = []"
| "join_comma [x] = x"
| "join_comma (x # y # ys) = x @ '', '' @ join_comma (y # ys)"

subsection \<open>The statements with their arguments\<close>

text \<open>
  Each function binds the arguments the handler passes and runs the statement on the
  bound values. The driver has refused any other number of values than the statement
  has placeholders, and the first placeholder of an insert holds the id the handler
  passes first.
\<close>

definition get_user_by_email :: "env \<Rightarrow> db \<Rightarrow> jsval list \<Rightarrow> js_error + user option" where
  "get_user_by_email E d args =
     (case bind_all E 1 args of
        Inl e \<Rightarrow> Inl e
      | Inr ps \<Rightarrow>
          (case ps of
             [p] \<Rightarrow> Inr (find_user_by_email d p)
           | _ \<Rightarrow> Inl (RangeError ''Too few parameter values were provided'')))"

definition run_insert_user :: "env \<Rightarrow> nat \<Rightarrow> db \<Rightarrow> jsval list \<Rightarrow> js_error + db" where
  "run_insert_user E now d args =
     (case bind_all E 4 args of
        Inl e \<Rightarrow> Inl e
      | Inr ps \<Rightarrow>
          (case ps of
             [Some uid, email, pw, name] \<Rightarrow> insert_user now d uid email pw name
           | _ \<Rightarrow> Inl (RangeError ''Too few parameter values were provided'')))"

definition run_insert_task :: "env \<Rightarrow> nat \<Rightarrow> db \<Rightarrow> jsval list \<Rightarrow> js_error + db" where
  "run_insert_task E now d args =
     (case bind_all E 7 args of
        Inl e \<Rightarrow> Inl e
      | Inr ps \<Rightarrow>
          (case ps of
             [Some tid, user_id, title, descr, st, pr, due] \<Rightarrow>
               insert_task now d tid user_id title descr st pr due
           | _ \<Rightarrow> Inl (RangeError ''Too few parameter values were provided'')))"

definition run_update_task :: "env \<Rightarrow> nat \<Rightarrow> db \<Rightarrow> jsval list \<Rightarrow> js_error + db" where
  "run_update_task E now d args =
     (case bind_all E 7 args of
        Inl e \<Rightarrow> Inl e
      | Inr ps \<Rightarrow>
          (case ps of
             [title, descr, st, pr, due, w_id, w_user] \<Rightarrow>
               update_task now d title descr st pr due w_id w_user
           | _ \<Rightarrow> Inl (RangeError ''Too few parameter values were provided'')))"

definition all_tasks ::
  "env \<Rightarrow> db \<Rightarrow> bool \<Rightarrow> bool \<Rightarrow> jsval list \<Rightarrow> js_error + task list" where
  "all_tasks E d has_status has_priority args =
     (case bind_all E (Suc ((if has_status then 1 else 0) + (if has_priority then 1 else 0)))
             args of
        Inl e \<Rightarrow> Inl e
      | Inr ps \<Rightarrow> Inr (select_tasks d has_status has_priority ps))"

section \<open>The token verifier: \<open>src/middleware/auth.js\<close>\<close>

text \<open>
  \<open>authenticate\<close>: \<open>Inl\<close> is the response that ends the request, \<open>Inr\<close> the payload
  attached as \<open>req.user\<close> before \<open>next()\<close>.
\<close>

definition authenticate :: "env \<Rightarrow> string option \<Rightarrow> response + identity" where
  "authenticate E authHeader =
     (case authHeader of
        None \<Rightarrow> Inl (401, ErrorBody ''Unauthorized''
          ''No Authorization header provided. Include: Authorization: Bearer <token>'')
      | Some h \<Rightarrow>
        if h = [] then Inl (401, ErrorBody ''Unauthorized''
          ''No Authorization header provided. Include: Authorization: Bearer <token>'')
        else
          let parts = split_sp h in
          if length parts \<noteq> 2 \<or> parts ! 0 \<noteq> ''Bearer''
          then Inl (401, ErrorBody ''Unauthorized''
            ''Authorization header must be in format: Bearer <token>'')
          else
            (case jwt_verify E (parts ! 1) of
               Inr decoded \<Rightarrow> Inr decoded
             | Inl err \<Rightarrow>
               if err_name err = ''TokenExpiredError''
               then Inl (401, ErrorBody ''TokenExpired''
                 ''Your token has expired. Please log in again.'')
               else Inl (401, ErrorBody ''InvalidToken'' ''Token is invalid or malformed.'')))"

section \<open>The task handlers: \<open>src/controllers/taskController.js\<close>\<close>

record task_query =
  q_status :: jsval
  q_priority :: jsval

record task_body =
  b_title :: jsval
  b_description :: jsval
  b_status :: jsval
  b_priority :: jsval
  b_due_date :: jsval

definition not_found :: response where
  "not_found = (404, ErrorBody ''NotFound'' ''Task not found.'')"

definition invalid_status :: response where
  "invalid_status = (400, ErrorBody ''ValidationError''
     (''status must be one of: '' @ join_comma VALID_STATUSES))"

definition invalid_priority :: response where
  "invalid_priority = (400, ErrorBody ''ValidationError''
     (''priority must be one of: '' @ join_comma VALID_PRIORITIES))"

text \<open>\<open>if (v) { ...; params.push(v) }\<close>: what a filter adds to the parameters.\<close>

definition pushed :: "jsval \<Rightarrow> jsval list" where
  "pushed v = (if truthy v then [v] else [])"

definition listTasks_try ::
  "env \<Rightarrow> db \<Rightarrow> identity \<Rightarrow> task_query \<Rightarrow> js_error + response" where
  "listTasks_try E d user q =
     (let userId = i_id user; status = q_status q; priority = q_priority q in
      if truthy status \<and> \<not> js_includes VALID_STATUSES status then Inr invalid_status
      else if truthy priority \<and> \<not> js_includes VALID_PRIORITIES priority
        then Inr invalid_priority
      else
        let params = [JStr userId] @ pushed status @ pushed priority in
        case all_tasks E d (truthy status) (truthy priority) params of
          Inl e \<Rightarrow> Inl e
        | Inr rows \<Rightarrow> Inr (200, TaskList (length rows) rows))"

text \<open>The \<open>catch\<close> of every handler: \<open>next(err)\<close> reaches \<open>errorHandler\<close>.\<close>

definition listTasks :: "env \<Rightarrow> db \<Rightarrow> identity \<Rightarrow> task_query \<Rightarrow> response" where
  "listTasks E d user q =
     (case listTasks_try E d user q of Inl err \<Rightarrow> errorHandler err | Inr r \<Rightarrow> r)"

definition getTask :: "db \<Rightarrow> identity \<Rightarrow> string \<Rightarrow> response" where
  "getTask d user tid =
     (case select_task_owned d tid (i_id user) of
        None \<Rightarrow> not_found
      | Some t \<Rightarrow> (200, TaskBody t))"

text \<open>\<open>!title || title.trim() === ''\<close>\<close>

definition title_missing :: "jsval \<Rightarrow> js_error + bool" where
  "title_missing title =
     (if \<not> truthy title then Inr True
      else case js_trim title of Inl e \<Rightarrow> Inl e | Inr s \<Rightarrow> Inr (s = []))"

definition createTask_try ::
  "env \<Rightarrow> nat \<Rightarrow> string \<Rightarrow> db \<Rightarrow> identity \<Rightarrow> task_body \<Rightarrow> js_error + db \<times> response" where
  "createTask_try E now uuid d user b =
     (let title = b_title b; description = b_description b; status = b_status b;
          priority = b_priority b; due_date = b_due_date b in
      case title_missing title of Inl e \<Rightarrow> Inl e | Inr missing \<Rightarrow>
      if missing then Inr (d, (400, ErrorBody ''ValidationError'' ''title is required.''))
      else if truthy status \<and> \<not> js_includes VALID_STATUSES status
        then Inr (d, invalid_status)
      else if truthy priority \<and> \<not> js_includes VALID_PRIORITIES priority
        then Inr (d, invalid_priority)
      else
        let taskId = uuid in
        case js_trim title of Inl e \<Rightarrow> Inl e | Inr trimmed \<Rightarrow>
        case run_insert_task E now d
               [JStr taskId, JStr (i_id user), JStr trimmed, js_or description JNull,
                js_or status (JStr ''pending''), js_or priority (JStr ''medium''),
                js_or due_date JNull]
        of Inl e \<Rightarrow> Inl e | Inr d' \<Rightarrow>
        Inr (d', (201, MsgTask ''Task created.'' (select_task d' taskId))))"

definition createTask ::
  "env \<Rightarrow> nat \<Rightarrow> string \<Rightarrow> db \<Rightarrow> identity \<Rightarrow> task_body \<Rightarrow> db \<times> response" where
  "createTask E now uuid d user b =
     (case createTask_try E now uuid d user b of
        Inl err \<Rightarrow> (d, errorHandler err) | Inr r \<Rightarrow> r)"

text \<open>\<open>v !== undefined ? v : existing\<close>\<close>

definition supplied :: "jsval \<Rightarrow> jsval \<Rightarrow> jsval" where
  "supplied v existing = (if v \<noteq> JUndefined then v else existing)"

definition updateTask_try ::
  "env \<Rightarrow> nat \<Rightarrow> db \<Rightarrow> identity \<Rightarrow> string \<Rightarrow> task_body \<Rightarrow> js_error + db \<times> response" where
  "updateTask_try E now d user tid b =
     (let title = b_title b; description = b_description b; status = b_status b;
          priority = b_priority b; due_date = b_due_date b in
      case select_task_owned d tid (i_id user) of
        None \<Rightarrow> Inr (d, not_found)
      | Some existing \<Rightarrow>
        if truthy status \<and> \<not> js_includes VALID_STATUSES status
          then Inr (d, invalid_status)
        else if truthy priority \<and> \<not> js_includes VALID_PRIORITIES priority
          then Inr (d, invalid_priority)
        else
          case (if title \<noteq> JUndefined
                then (case js_trim title of Inl e \<Rightarrow> Inl e | Inr s \<Rightarrow> Inr (JStr s))
                else Inr (JStr (t_title existing)))
          of Inl e \<Rightarrow> Inl e | Inr updatedTitle \<Rightarrow>
          let updatedDescription = supplied description (col (t_description existing));
              updatedStatus = supplied status (JStr (t_status existing));
              updatedPriority = supplied priority (JStr (t_priority existing));
              updatedDueDate = supplied due_date (col (t_due_date existing)) in
          case run_update_task E now d
                 [updatedTitle, updatedDescription, updatedStatus, updatedPriority,
                  updatedDueDate, JStr tid, JStr (i_id user)]
          of Inl e \<Rightarrow> Inl e | Inr d' \<Rightarrow>
          Inr (d', (200, MsgTask ''Task updated.'' (select_task d' tid))))"

definition updateTask ::
  "env \<Rightarrow> nat \<Rightarrow> db \<Rightarrow> identity \<Rightarrow> string \<Rightarrow> task_body \<Rightarrow> db \<times> response" where
  "updateTask E now d user tid b =
     (case updateTask_try E now d user tid b of
        Inl err \<Rightarrow> (d, errorHandler err) | Inr r \<Rightarrow> r)"

definition deleteTask :: "db \<Rightarrow> identity \<Rightarrow> string \<Rightarrow> db \<times> response" where
  "deleteTask d user tid =
     (case delete_task d tid (i_id user) of (d', changes) \<Rightarrow>
        if changes = 0 then (d', not_found)
        else (d', (200, Msg ''Task deleted.'')))"

section \<open>The account handlers: \<open>src/controllers/authController.js\<close>\<close>

record signup_body =
  s_name :: jsval
  s_email :: jsval
  s_password :: jsval

record login_body =
  l_email :: jsval
  l_password :: jsval

definition generateToken :: "env \<Rightarrow> identity \<Rightarrow> string" where
  "generateToken E payload = jwt_sign E payload"

definition conflict :: response where
  "conflict = (409, ErrorBody ''Conflict'' ''An account with this email already exists.'')"

text \<open>
  \<open>signup\<close> up to its \<open>await\<close>: validation and the lookup by email. \<open>Some r\<close> is a
  response sent at once, \<open>None\<close> means the handler goes on to hash the password.
\<close>

definition signup_check :: "env \<Rightarrow> db \<Rightarrow> signup_body \<Rightarrow> js_error + response option" where
  "signup_check E d b =
     (let name = s_name b; email = s_email b; password = s_password b in
      if \<not> truthy name \<or> \<not> truthy email \<or> \<not> truthy password
        then Inr (Some (400, ErrorBody ''ValidationError''
               ''name, email, and password are all required.''))
      else
        case length_less E password 8 of Inl e \<Rightarrow> Inl e | Inr short \<Rightarrow>
        if short then Inr (Some (400, ErrorBody ''ValidationError''
               ''Password must be at least 8 characters long.''))
        else
          case get_user_by_email E d [email] of Inl e \<Rightarrow> Inl e | Inr found \<Rightarrow>
          (case found of
             Some existing \<Rightarrow> Inr (Some conflict)
           | None \<Rightarrow> Inr None))"

text \<open>\<open>bcrypt.hash(password, 10)\<close>: the library rejects a password that is not a string.\<close>

fun hash_password :: "env \<Rightarrow> jsval \<Rightarrow> js_error + string" where
  "hash_password E (JStr p) = Inr (bcrypt_hash E p)"
| "hash_password E v = Inl IllegalArguments"

text \<open>\<open>signup\<close> from its \<open>await\<close> on: the hash, the insert, the token, the response.\<close>

definition signup_insert ::
  "env \<Rightarrow> nat \<Rightarrow> string \<Rightarrow> db \<Rightarrow> signup_body \<Rightarrow> js_error + db \<times> response" where
  "signup_insert E now uuid d b =
     (let name = s_name b; email = s_email b; password = s_password b in
      case hash_password E password of Inl e \<Rightarrow> Inl e | Inr hashedPassword \<Rightarrow>
      let userId = uuid in
      case run_insert_user E now d [JStr userId, email, JStr hashedPassword, name]
      of Inl e \<Rightarrow> Inl e | Inr d' \<Rightarrow>
      let token = generateToken E \<lparr> i_id = userId, i_email = email \<rparr>
      in Inr (d', (201, AuthBody ''Account created successfully.'' token userId name email)))"

text \<open>
  The handler is \<open>async\<close>: while it awaits the hash, other requests run. \<open>d0\<close> is the
  store the lookup reads, \<open>d1\<close> the store the insert finds when the handler resumes.
\<close>

definition signup_async ::
  "env \<Rightarrow> nat \<Rightarrow> string \<Rightarrow> db \<Rightarrow> db \<Rightarrow> signup_body \<Rightarrow> db \<times> response" where
  "signup_async E now uuid d0 d1 b =
     (case signup_check E d0 b of
        Inl err \<Rightarrow> (d0, errorHandler err)
      | Inr (Some r) \<Rightarrow> (d0, r)
      | Inr None \<Rightarrow>
        (case signup_insert E now uuid d1 b of
           Inl err \<Rightarrow> (d1, errorHandler err)
         | Inr r \<Rightarrow> r))"

text \<open>A signup during which no other request touches the store.\<close>

definition signup :: "env \<Rightarrow> nat \<Rightarrow> string \<Rightarrow> db \<Rightarrow> signup_body \<Rightarrow> db \<times> response" where
  "signup E now uuid d b = signup_async E now uuid d d b"

definition invalid_credentials :: response where
  "invalid_credentials = (401, ErrorBody ''InvalidCredentials'' ''Invalid email or password.'')"

text \<open>\<open>bcrypt.compare(password, hash)\<close>: the library rejects a password that is not a string.\<close>

fun compare_password :: "env \<Rightarrow> jsval \<Rightarrow> string \<Rightarrow> js_error + bool" where
  "compare_password E (JStr p) h = Inr (bcrypt_compare E p h)"
| "compare_password E v h = Inl IllegalArguments"

definition login_try :: "env \<Rightarrow> db \<Rightarrow> login_body \<Rightarrow> js_error + response" where
  "login_try E d b =
     (let email = l_email b; password = l_password b in
      if \<not> truthy email \<or> \<not> truthy password
        then Inr (400, ErrorBody ''ValidationError'' ''email and password are required.'')
      else
        case get_user_by_email E d [email] of Inl e \<Rightarrow> Inl e | Inr found \<Rightarrow>
        (case found of
           None \<Rightarrow> Inr invalid_credentials
         | Some user \<Rightarrow>
           case compare_password E password (u_password user) of Inl e \<Rightarrow> Inl e
           | Inr passwordMatches \<Rightarrow>
             if \<not> passwordMatches then Inr invalid_credentials
             else
               let token = generateToken E \<lparr> i_id = u_id user, i_email = JStr (u_email user) \<rparr>
               in Inr (200, AuthBody ''Login successful.'' token (u_id user)
                         (JStr (u_name user)) (JStr (u_email user)))))"

definition login :: "env \<Rightarrow> db \<Rightarrow> login_body \<Rightarrow> response" where
  "login E d b = (case login_try E d b of Inl err \<Rightarrow> errorHandler err | Inr r \<Rightarrow> r)"

section \<open>Invariants of the store\<close>

text \<open>The primary key of \<open>tasks\<close>: no two rows share an \<open>id\<close>.\<close>

definition pk_ok :: "db \<Rightarrow> bool" where
  "pk_ok d \<longleftrightarrow> distinct (map t_id (tasks d))"

text \<open>The foreign key of \<open>tasks\<close>: the owner of every row is a row of \<open>users\<close>.\<close>

definition fk_ok :: "db \<Rightarrow> bool" where
  "fk_ok d \<longleftrightarrow> list_all (\<lambda>t. list_ex (\<lambda>u. u_id u = t_user_id t) (users d)) (tasks d)"

text \<open>The \<open>UNIQUE\<close> constraint of \<open>users.email\<close>.\<close>

definition email_ok :: "db \<Rightarrow> bool" where
  "email_ok d \<longleftrightarrow> distinct (map u_email (users d))"

section \<open>Runs of the service\<close>

text \<open>
  The requests that write to the store, and the deletion of a user row. A signup whose
  lookup ran earlier and that resumes after its \<open>await\<close> on the current store is a
  step of its own.
\<close>

datatype op =
    Signup nat string signup_body
  | SignupResume nat string signup_body
  | CreateTask nat string identity task_body
  | UpdateTask nat identity string task_body
  | DeleteTask identity string
  | DeleteUser string

fun apply_op :: "env \<Rightarrow> db \<Rightarrow> op \<Rightarrow> db" where
  "apply_op E d (Signup now uuid b) = fst (signup E now uuid d b)"
| "apply_op E d (SignupResume now uuid b) =
     (case signup_insert E now uuid d b of Inl err \<Rightarrow> d | Inr r \<Rightarrow> fst r)"
| "apply_op E d (CreateTask now uuid who b) = fst (createTask E now uuid d who b)"
| "apply_op E d (UpdateTask now who tid b) = fst (updateTask E now d who tid b)"
| "apply_op E d (DeleteTask who tid) = fst (deleteTask d who tid)"
| "apply_op E d (DeleteUser uid) = delete_user d uid"

definition run :: "env \<Rightarrow> op list \<Rightarrow> db" where
  "run E ops = foldl (apply_op E) empty_db ops"

section \<open>Sample values\<close>

definition alice :: identity where
  "alice = \<lparr> i_id = ''u1'', i_email = JStr ''alice@x.com'' \<rparr>"

definition bob :: identity where
  "bob = \<lparr> i_id = ''u2'', i_email = JStr ''bob@x.com'' \<rparr>"

definition expired_error :: js_error where
  "expired_error = \<lparr> err_name = ''TokenExpiredError'', err_status = None,
     err_message = ''jwt expired'' \<rparr>"

definition malformed_error :: js_error where
  "malformed_error = \<lparr> err_name = ''JsonWebTokenError'', err_status = None,
     err_message = ''jwt malformed'' \<rparr>"

definition sample_env :: env where
  "sample_env = \<lparr>
     bcrypt_hash = (\<lambda>p. ''#'' @ p),
     bcrypt_compare = (\<lambda>p h. h = ''#'' @ p),
     jwt_sign = (\<lambda>i. ''tok-'' @ i_id i),
     jwt_verify = (\<lambda>t. if t = ''tok-u1'' then Inr alice
                         else if t = ''old'' then Inl expired_error
                         else Inl malformed_error),
     sqlite_text = (\<lambda>k. if k = Num 1 then ''1.0'' else ''0.0''),
     js_less = (\<lambda>v n. Inr False) \<rparr>"

definition task1 :: task where
  "task1 = \<lparr> t_id = ''t1'', t_user_id = ''u1'', t_title = ''write report'',
     t_description = Some ''draft'', t_status = ''pending'', t_priority = ''medium'',
     t_due_date = None, t_created_at = 10, t_updated_at = 10 \<rparr>"

definition task2 :: task where
  "task2 = \<lparr> t_id = ''t2'', t_user_id = ''u1'', t_title = ''call bank'',
     t_description = None, t_status = ''completed'', t_priority = ''high'',
     t_due_date = Some ''2024-12-31'', t_created_at = 20, t_updated_at = 25 \<rparr>"

definition task3 :: task where
  "task3 = \<lparr> t_id = ''t3'', t_user_id = ''u2'', t_title = ''buy milk'',
     t_description = None, t_status = ''pending'', t_priority = ''low'',
     t_due_date = None, t_created_at = 15, t_updated_at = 15 \<rparr>"

definition sample_db :: db where
  "sample_db = \<lparr>
     users = [\<lparr> u_id = ''u1'', u_email = ''alice@x.com'', u_password = ''#longenough1'',
                u_name = ''Alice'', u_created_at = 1 \<rparr>,
              \<lparr> u_id = ''u2'', u_email = ''bob@x.com'', u_password = ''#hunter2hunter2'',
                u_name = ''Bob'', u_created_at = 2 \<rparr>],
     tasks = [task1, task2, task3] \<rparr>"

text \<open>A request body with no key set.\<close>

definition no_fields :: task_body where
  "no_fields = \<lparr> b_title = JUndefined, b_description = JUndefined, b_status = JUndefined,
     b_priority = JUndefined, b_due_date = JUndefined \<rparr>"

definition carol_signup :: signup_body where
  "carol_signup = \<lparr> s_name = JStr ''Carol'', s_email = JStr ''carol@x.com'',
     s_password = JStr ''longenough3'' \<rparr>"

text \<open>The sample store after a signup of Carol.\<close>

definition sample_db_carol :: db where
  "sample_db_carol = fst (signup sample_env 49 ''u3'' sample_db carol_signup)"

section \<open>Binding arguments\<close>

lemma bind_next_scalar:
  "bind_value E v = Inr p \<Longrightarrow> length acc < n \<Longrightarrow> bind_next E n v acc = Inr (acc @ [p])"
  by (simp add: bind_next_def)

lemma bind_next_Inr:
  "bind_next E n v acc = Inr acc' \<Longrightarrow>
   length acc < n \<and> (\<exists>p. bind_value E v = Inr p \<and> acc' = acc @ [p])"
  by (auto simp: bind_next_def split: sum.splits if_splits)

lemma bind_array_Inr:
  "bind_array E n xs acc = Inr acc' \<Longrightarrow>
   length acc \<le> n \<Longrightarrow> length acc' \<le> n \<and> (\<exists>r. acc' = acc @ r)"
proof (induction xs arbitrary: acc)
  case Nil
  then show ?case by simp
next
  case (Cons x xs)
  from Cons.prems(1) obtain a where a: "bind_next E n x acc = Inr a"
    and rest: "bind_array E n xs a = Inr acc'"
    by (auto split: sum.splits)
  from bind_next_Inr[OF a] have "length a \<le> n" "\<exists>p. a = acc @ [p]" by auto
  with Cons.IH[OF rest] show ?case by auto
qed

text \<open>An argument that is neither an array nor an object is one positional value.\<close>

lemma bind_args_scalar_step:
  assumes "\<forall>xs. v \<noteq> JArr xs" and "\<forall>kvs. v \<noteq> JObj kvs"
  shows "bind_args E n seen (v # rest) acc =
     (case bind_next E n v acc of Inl e \<Rightarrow> Inl e | Inr acc' \<Rightarrow> bind_args E n seen rest acc')"
  using assms by (cases v) simp_all

text \<open>A successful binding fills every placeholder and keeps what was bound before.\<close>

lemma bind_args_Inr:
  "bind_args E n seen args acc = Inr ps \<Longrightarrow>
   length acc \<le> n \<Longrightarrow> length ps = n \<and> (\<exists>r. ps = acc @ r)"
proof (induction args arbitrary: seen acc)
  case Nil
  then show ?case by (auto split: if_splits)
next
  case (Cons v rest)
  consider xs where "v = JArr xs" | kvs where "v = JObj kvs"
    | "\<forall>xs. v \<noteq> JArr xs" "\<forall>kvs. v \<noteq> JObj kvs"
    by blast
  then show ?case
  proof cases
    case 1
    with Cons.prems(1) obtain a where a: "bind_array E n xs acc = Inr a"
      and rest: "bind_args E n seen rest a = Inr ps"
      by (auto split: sum.splits)
    from bind_array_Inr[OF a Cons.prems(2)] have "length a \<le> n" "\<exists>r. a = acc @ r" by auto
    with Cons.IH[OF rest] show ?thesis by auto
  next
    case 2
    with Cons.prems(1) have "bind_args E n True rest acc = Inr ps"
      by (auto split: if_splits)
    from Cons.IH[OF this Cons.prems(2)] show ?thesis .
  next
    case 3
    with Cons.prems(1) obtain a where a: "bind_next E n v acc = Inr a"
      and rest: "bind_args E n seen rest a = Inr ps"
      by (auto simp: bind_args_scalar_step split: sum.splits)
    from bind_next_Inr[OF a] have "length a \<le> n" "\<exists>p. a = acc @ [p]" by auto
    with Cons.IH[OF rest] show ?thesis by auto
  qed
qed

lemma bind_all_length: "bind_all E n args = Inr ps \<Longrightarrow> length ps = n"
  unfolding bind_all_def using bind_args_Inr[of E n False args "[]" ps] by simp

text \<open>
  Arguments that are strings, numbers or \<open>null\<close>, as many as there are placeholders
  left, are bound one to one.
\<close>

lemma bind_args_scalars:
  "list_all2 (\<lambda>v p. bind_value E v = Inr p) args ps \<Longrightarrow> length acc + length args = n \<Longrightarrow>
   bind_args E n seen args acc = Inr (acc @ ps)"
proof (induction args ps arbitrary: acc rule: list_all2_induct)
  case Nil
  then show ?case by simp
next
  case (Cons v args p ps)
  from Cons.prems have lt: "length acc < n" by simp
  have step: "bind_next E n v acc = Inr (acc @ [p])"
    using Cons.hyps(1) lt by (rule bind_next_scalar)
  have "bind_args E n seen (v # args) acc = bind_args E n seen args (acc @ [p])"
    using Cons.hyps(1) step by (cases v) simp_all
  also have "\<dots> = Inr ((acc @ [p]) @ ps)"
    using Cons.prems by (intro Cons.IH) simp
  finally show ?case by simp
qed

lemma bind_all_scalars:
  "list_all2 (\<lambda>v p. bind_value E v = Inr p) args ps \<Longrightarrow> length args = n \<Longrightarrow>
   bind_all E n args = Inr ps"
  unfolding bind_all_def using bind_args_scalars[of E args ps "[]" n False] by simp

section \<open>Splitting the Authorization header\<close>

lemma split_sp_nonempty: "split_sp s \<noteq> []"
  by (induction s) (auto split: list.splits)

lemma split_sp_single: "split_sp s = [a] \<longleftrightarrow> s = a \<and> CHR '' '' \<notin> set a"
proof (induction s arbitrary: a)
  case Nil
  then show ?case by auto
next
  case (Cons c cs)
  show ?case
  proof (cases "c = CHR '' ''")
    case True
    then show ?thesis by (auto simp: split_sp_nonempty)
  next
    case False
    then show ?thesis using Cons[of "tl a"] split_sp_nonempty[of cs]
      by (cases a; cases "split_sp cs") (auto)
  qed
qed

lemma split_sp_two:
  "split_sp s = [a, b] \<longleftrightarrow> s = a @ CHR '' '' # b \<and> CHR '' '' \<notin> set a \<and> CHR '' '' \<notin> set b"
proof (induction s arbitrary: a)
  case Nil
  then show ?case by auto
next
  case (Cons c cs)
  show ?case
  proof (cases "c = CHR '' ''")
    case True
    then show ?thesis by (cases a) (auto simp: split_sp_single)
  next
    case False
    then show ?thesis using Cons[of "tl a"] split_sp_nonempty[of cs]
      by (cases a; cases "split_sp cs") (auto)
  qed
qed

lemma bearer_form:
  "(length (split_sp h) = 2 \<and> split_sp h ! 0 = ''Bearer'') \<longleftrightarrow>
   (\<exists>tok. h = ''Bearer '' @ tok \<and> CHR '' '' \<notin> set tok)"
proof
  assume L: "length (split_sp h) = 2 \<and> split_sp h ! 0 = ''Bearer''"
  then obtain a b where ab: "split_sp h = [a, b]"
    by (cases "split_sp h"; cases "tl (split_sp h)") auto
  with L have "a = ''Bearer''" by simp
  with ab show "\<exists>tok. h = ''Bearer '' @ tok \<and> CHR '' '' \<notin> set tok"
    by (auto simp: split_sp_two)
next
  assume "\<exists>tok. h = ''Bearer '' @ tok \<and> CHR '' '' \<notin> set tok"
  then obtain tok where "h = ''Bearer'' @ CHR '' '' # tok" "CHR '' '' \<notin> set tok" by auto
  then have "split_sp h = [''Bearer'', tok]"
    by (subst split_sp_two) auto
  then show "length (split_sp h) = 2 \<and> split_sp h ! 0 = ''Bearer''" by simp
qed

lemma bearer_token:
  "CHR '' '' \<notin> set tok \<Longrightarrow> split_sp (''Bearer '' @ tok) = [''Bearer'', tok]"
  using split_sp_two[of "''Bearer '' @ tok" "''Bearer''" tok] by simp

section \<open>The token verifier\<close>

text \<open>
  Claim C7. A header that is absent, or that is not \<open>Bearer\<close>, one space and a token
  without a space (that is, not two parts separated by one space with the first part
  \<open>Bearer\<close>), is answered 401 \<open>Unauthorized\<close>. For a header of that form: when
  verification throws an error named \<open>TokenExpiredError\<close> the answer is 401
  \<open>TokenExpired\<close>; when it throws anything else the answer is 401 \<open>InvalidToken\<close>; when
  it returns the decoded payload, that payload (with its id and email) is attached to the
  request.
\<close>

theorem authenticate_taxonomy:
  "((\<nexists>tok. hdr = Some (''Bearer '' @ tok) \<and> CHR '' '' \<notin> set tok) \<longrightarrow>
      (\<exists>m. authenticate E hdr = Inl (401, ErrorBody ''Unauthorized'' m)))
   \<and> (CHR '' '' \<notin> set tok \<and> jwt_verify E tok = Inl err
        \<and> err_name err = ''TokenExpiredError'' \<longrightarrow>
      authenticate E (Some (''Bearer '' @ tok)) =
        Inl (401, ErrorBody ''TokenExpired'' ''Your token has expired. Please log in again.''))
   \<and> (CHR '' '' \<notin> set tok \<and> jwt_verify E tok = Inl err
        \<and> err_name err \<noteq> ''TokenExpiredError'' \<longrightarrow>
      authenticate E (Some (''Bearer '' @ tok)) =
        Inl (401, ErrorBody ''InvalidToken'' ''Token is invalid or malformed.''))
   \<and> (CHR '' '' \<notin> set tok \<and> jwt_verify E tok = Inr decoded \<longrightarrow>
      authenticate E (Some (''Bearer '' @ tok)) = Inr decoded)"
proof -
  have bad: "\<exists>m. authenticate E hdr = Inl (401, ErrorBody ''Unauthorized'' m)"
    if none: "\<nexists>tok. hdr = Some (''Bearer '' @ tok) \<and> CHR '' '' \<notin> set tok"
  proof (cases hdr)
    case None
    then show ?thesis by (simp add: authenticate_def)
  next
    case (Some h)
    with none have "\<not> (length (split_sp h) = 2 \<and> split_sp h ! 0 = ''Bearer'')"
      by (simp only: bearer_form) auto
    with Some show ?thesis by (auto simp: authenticate_def Let_def)
  qed
  have good: "authenticate E (Some (''Bearer '' @ tok)) =
      (case jwt_verify E tok of
         Inr d \<Rightarrow> Inr d
       | Inl e \<Rightarrow>
           if err_name e = ''TokenExpiredError''
           then Inl (401, ErrorBody ''TokenExpired''
                  ''Your token has expired. Please log in again.'')
           else Inl (401, ErrorBody ''InvalidToken'' ''Token is invalid or malformed.''))"
    if "CHR '' '' \<notin> set tok"
  proof -
    from that have "split_sp (''Bearer '' @ tok) = [''Bearer'', tok]" by (rule bearer_token)
    then show ?thesis by (simp add: authenticate_def Let_def split: sum.splits)
  qed
  from bad good show ?thesis by simp
qed

theorem authenticate_taxonomy_witness:
  "(\<exists>m. authenticate sample_env (Some ''Token abc'') = Inl (401, ErrorBody ''Unauthorized'' m))
   \<and> (\<exists>m. authenticate sample_env None = Inl (401, ErrorBody ''Unauthorized'' m))
   \<and> authenticate sample_env (Some ''Bearer old'') =
       Inl (401, ErrorBody ''TokenExpired'' ''Your token has expired. Please log in again.'')
   \<and> authenticate sample_env (Some ''Bearer junk'') =
       Inl (401, ErrorBody ''InvalidToken'' ''Token is invalid or malformed.'')
   \<and> authenticate sample_env (Some ''Bearer tok-u1'') = Inr alice"
proof -
  have 1: "\<exists>m. authenticate sample_env (Some ''Token abc'') =
      Inl (401, ErrorBody ''Unauthorized'' m)"
    using authenticate_taxonomy [of "Some ''Token abc''" sample_env] by simp
  have 2: "\<exists>m. authenticate sample_env None = Inl (401, ErrorBody ''Unauthorized'' m)"
    using authenticate_taxonomy [of None sample_env] by simp
  have 3: "authenticate sample_env (Some ''Bearer old'') =
      Inl (401, ErrorBody ''TokenExpired'' ''Your token has expired. Please log in again.'')"
    using authenticate_taxonomy [of None sample_env "''old''" expired_error]
    by (simp add: sample_env_def expired_error_def)
  have 4: "authenticate sample_env (Some ''Bearer junk'') =
      Inl (401, ErrorBody ''InvalidToken'' ''Token is invalid or malformed.'')"
    using authenticate_taxonomy [of None sample_env "''junk''" malformed_error]
    by (simp add: sample_env_def malformed_error_def)
  have 5: "authenticate sample_env (Some ''Bearer tok-u1'') = Inr alice"
    using authenticate_taxonomy [of None sample_env "''tok-u1''" _ alice]
    by (simp add: sample_env_def)
  from 1 2 3 4 5 show ?thesis by simp
qed

section \<open>Ownership isolation\<close>

lemma find_None_iff2: "find P xs = None \<longleftrightarrow> (\<forall>x\<in>set xs. \<not> P x)"
  by (induction xs) auto

lemma pk_same_id:
  assumes "pk_ok d" "t \<in> set (tasks d)" "t' \<in> set (tasks d)" "t_id t' = t_id t"
  shows "t' = t"
  using assms unfolding pk_ok_def by (metis distinct_map inj_onD)

lemma foreign_select_None:
  assumes "pk_ok d" "t \<in> set (tasks d)" "t_user_id t \<noteq> uid"
  shows "select_task_owned d (t_id t) uid = None"
  unfolding select_task_owned_def find_None_iff2
  using assms pk_same_id by blast

lemma delete_task_none:
  assumes "select_task_owned d tid uid = None"
  shows "delete_task d tid uid = (d, 0)"
proof -
  have "filter (\<lambda>t. \<not> (t_id t = tid \<and> t_user_id t = uid)) (tasks d) = tasks d"
    using assms unfolding select_task_owned_def find_None_iff2 by (simp add: filter_id_conv)
  then show ?thesis by (simp add: delete_task_def)
qed

text \<open>
  Claim C1. In a store whose task ids are unique, for a task owned by \<open>a\<close> and a caller
  whose id is not \<open>a\<close>: Get answers 404 \<open>NotFound\<close>, and Update (with any body) and
  Delete answer 404 \<open>NotFound\<close> and leave the store as it was.
\<close>

theorem ownership_isolation:
  assumes "pk_ok d" and "t \<in> set (tasks d)" and "t_user_id t = a" and "i_id who \<noteq> a"
  shows "getTask d who (t_id t) = (404, ErrorBody ''NotFound'' ''Task not found.'')
       \<and> updateTask E now d who (t_id t) b = (d, (404, ErrorBody ''NotFound'' ''Task not found.''))
       \<and> deleteTask d who (t_id t) = (d, (404, ErrorBody ''NotFound'' ''Task not found.''))"
proof -
  have none: "select_task_owned d (t_id t) (i_id who) = None"
    using assms by (intro foreign_select_None) auto
  have g: "getTask d who (t_id t) = (404, ErrorBody ''NotFound'' ''Task not found.'')"
    using none by (simp add: getTask_def not_found_def)
  have u: "updateTask E now d who (t_id t) b = (d, (404, ErrorBody ''NotFound'' ''Task not found.''))"
    using none by (simp add: updateTask_def updateTask_try_def not_found_def Let_def)
  have dl: "deleteTask d who (t_id t) = (d, (404, ErrorBody ''NotFound'' ''Task not found.''))"
    using delete_task_none[OF none] by (simp add: deleteTask_def not_found_def)
  from g u dl show ?thesis by simp
qed

theorem ownership_isolation_witness:
  "getTask sample_db bob ''t1'' = (404, ErrorBody ''NotFound'' ''Task not found.'')
   \<and> updateTask sample_env 30 sample_db bob ''t1'' (no_fields\<lparr> b_title := JStr ''mine now'' \<rparr>) =
       (sample_db, (404, ErrorBody ''NotFound'' ''Task not found.''))
   \<and> deleteTask sample_db bob ''t1'' =
       (sample_db, (404, ErrorBody ''NotFound'' ''Task not found.''))"
proof -
  have pk: "pk_ok sample_db"
    by (simp add: pk_ok_def sample_db_def task1_def task2_def task3_def)
  have mem: "task1 \<in> set (tasks sample_db)" by (simp add: sample_db_def)
  have own: "t_user_id task1 = ''u1''" by (simp add: task1_def)
  have other: "i_id bob \<noteq> ''u1''" by (simp add: bob_def)
  have tid: "t_id task1 = ''t1''" by (simp add: task1_def)
  show ?thesis
    using ownership_isolation [OF pk mem own other, of sample_env 30 "no_fields\<lparr> b_title := JStr ''mine now'' \<rparr>"]
    by (simp only: tid)
qed

section \<open>Listing\<close>


lemma b1: "bind_all E (Suc 0) [JStr uid] = Inr [Some uid]"
  by (simp add: bind_all_def bind_next_def)

lemma b2: "bind_all E (Suc (Suc 0)) [JStr uid, JStr s] = Inr [Some uid, Some s]"
  by (simp add: bind_all_def bind_next_def)

lemma b3: "bind_all E (Suc (Suc (Suc 0))) [JStr uid, JStr s, JStr p] = Inr [Some uid, Some s, Some p]"
  by (simp add: bind_all_def bind_next_def)

lemma all_tasks_FF:
  "all_tasks E d False False [JStr uid] =
     Inr (rev (sort_key t_created_at (filter (\<lambda>t. t_user_id t = uid) (tasks d))))"
  by (simp add: all_tasks_def b1 select_tasks_def)

lemma all_tasks_TF:
  "all_tasks E d True False [JStr uid, JStr s] =
     Inr (rev (sort_key t_created_at
       (filter (\<lambda>t. t_user_id t = uid \<and> t_status t = s) (tasks d))))"
  by (simp add: all_tasks_def b2 select_tasks_def)

lemma all_tasks_FT:
  "all_tasks E d False True [JStr uid, JStr p] =
     Inr (rev (sort_key t_created_at
       (filter (\<lambda>t. t_user_id t = uid \<and> t_priority t = p) (tasks d))))"
  by (simp add: all_tasks_def b2 select_tasks_def)

lemma all_tasks_TT:
  "all_tasks E d True True [JStr uid, JStr s, JStr p] =
     Inr (rev (sort_key t_created_at
       (filter (\<lambda>t. t_user_id t = uid \<and> t_status t = s \<and> t_priority t = p) (tasks d))))"
  by (simp add: all_tasks_def b3 select_tasks_def)

lemma all_tasks_valid:
  assumes "\<not> truthy st \<or> (\<exists>s. st = JStr s)" and "\<not> truthy pr \<or> (\<exists>s. pr = JStr s)"
  shows "all_tasks E d (truthy st) (truthy pr) ([JStr uid] @ pushed st @ pushed pr) =
    Inr (rev (sort_key t_created_at
      (filter (\<lambda>t. t_user_id t = uid \<and> (truthy st \<longrightarrow> JStr (t_status t) = st)
                   \<and> (truthy pr \<longrightarrow> JStr (t_priority t) = pr)) (tasks d))))"
proof (cases "truthy st")
  case st: True
  with assms(1) obtain s where s: "st = JStr s" by blast
  show ?thesis
  proof (cases "truthy pr")
    case pr: True
    with assms(2) obtain p where p: "pr = JStr p" by blast
    from st pr show ?thesis unfolding s p by (simp add: pushed_def all_tasks_TT)
  next
    case pr: False
    from st pr show ?thesis unfolding s by (simp add: pushed_def all_tasks_TF)
  qed
next
  case st: False
  show ?thesis
  proof (cases "truthy pr")
    case pr: True
    with assms(2) obtain p where p: "pr = JStr p" by blast
    from st pr show ?thesis unfolding p by (simp add: pushed_def all_tasks_FT)
  next
    case pr: False
    from st pr show ?thesis by (simp add: pushed_def all_tasks_FF)
  qed
qed

lemma includes_string: "js_includes enum v \<Longrightarrow> \<exists>s. v = JStr s \<and> s \<in> set enum"
  by (cases v) auto

text \<open>What a list request that passes validation answers.\<close>

lemma listTasks_valid:
  assumes "\<not> truthy (q_status q) \<or> js_includes VALID_STATUSES (q_status q)"
    and "\<not> truthy (q_priority q) \<or> js_includes VALID_PRIORITIES (q_priority q)"
  shows "\<exists>rows. listTasks E d who q = (200, TaskList (length rows) rows)
    \<and> rows = rev (sort_key t_created_at
        (filter (\<lambda>t. t_user_id t = i_id who
                   \<and> (truthy (q_status q) \<longrightarrow> JStr (t_status t) = q_status q)
                   \<and> (truthy (q_priority q) \<longrightarrow> JStr (t_priority t) = q_priority q))
           (tasks d)))"
proof -
  have s: "\<not> truthy (q_status q) \<or> (\<exists>s. q_status q = JStr s)"
    using assms(1) includes_string by blast
  have p: "\<not> truthy (q_priority q) \<or> (\<exists>s. q_priority q = JStr s)"
    using assms(2) includes_string by blast
  have ok: "(truthy (q_status q) \<and> \<not> js_includes VALID_STATUSES (q_status q)) = False"
    "(truthy (q_priority q) \<and> \<not> js_includes VALID_PRIORITIES (q_priority q)) = False"
    using assms by auto
  show ?thesis
    unfolding listTasks_def listTasks_try_def Let_def
    by (simp only: ok if_False all_tasks_valid[OF s p] sum.case) simp
qed

lemma sorted_desc_rev_sort_key:
  "sorted_wrt (\<lambda>x y. t_created_at y \<le> t_created_at x) (rev (sort_key t_created_at xs))"
proof -
  have "sorted (map t_created_at (sort_key t_created_at xs))" by (rule sorted_sort_key)
  then have "sorted_wrt (\<lambda>x y. t_created_at x \<le> t_created_at y) (sort_key t_created_at xs)"
    by (simp add: sorted_map)
  then show ?thesis by (simp add: sorted_wrt_rev)
qed

lemma valid_status_nonempty: "List.member VALID_STATUSES s \<Longrightarrow> s \<noteq> []"
  by (auto simp: VALID_STATUSES_def)

lemma invalid_status_text:
  "invalid_status = (400, ErrorBody ''ValidationError''
     ''status must be one of: pending, in_progress, completed'')"
  by (simp add: invalid_status_def VALID_STATUSES_def)

lemma invalid_priority_text:
  "invalid_priority = (400, ErrorBody ''ValidationError''
     ''priority must be one of: low, medium, high'')"
  by (simp add: invalid_priority_def VALID_PRIORITIES_def)

text \<open>
  Claim C9, as amended. For every caller: a status value that is truthy (a non-empty
  string, or \<open>true\<close>) and not in the enumeration is answered 400 \<open>ValidationError\<close>,
  whatever the store holds (no query runs); with a status from the enumeration and no
  priority filter the answer is 200 with exactly the caller's tasks of that status,
  newest-created first, and their count; with no filter (status and priority absent or
  falsy, the empty string included) the answer is 200 with all of the caller's tasks,
  in the same order, and their count.
\<close>

theorem list_filter_order:
  "(truthy (q_status q) \<and> \<not> js_includes VALID_STATUSES (q_status q) \<longrightarrow>
      listTasks E d who q = (400, ErrorBody ''ValidationError''
        ''status must be one of: pending, in_progress, completed'')
      \<and> listTasks E d' who q = listTasks E d who q)
   \<and> (q_status q = JStr s \<and> List.member VALID_STATUSES s \<and> \<not> truthy (q_priority q) \<longrightarrow>
      (\<exists>rows. listTasks E d who q = (200, TaskList (length rows) rows)
         \<and> mset rows = mset (filter (\<lambda>t. t_user_id t = i_id who \<and> t_status t = s) (tasks d))
         \<and> sorted_wrt (\<lambda>x y. t_created_at y \<le> t_created_at x) rows))
   \<and> (\<not> truthy (q_status q) \<and> \<not> truthy (q_priority q) \<longrightarrow>
      (\<exists>rows. listTasks E d who q = (200, TaskList (length rows) rows)
         \<and> mset rows = mset (filter (\<lambda>t. t_user_id t = i_id who) (tasks d))
         \<and> sorted_wrt (\<lambda>x y. t_created_at y \<le> t_created_at x) rows))"
proof (intro conjI impI)
  assume "truthy (q_status q) \<and> \<not> js_includes VALID_STATUSES (q_status q)"
  then have "\<And>x. listTasks E x who q = invalid_status"
    by (simp add: listTasks_def listTasks_try_def Let_def)
  then show "listTasks E d who q = (400, ErrorBody ''ValidationError''
        ''status must be one of: pending, in_progress, completed'')"
    and "listTasks E d' who q = listTasks E d who q"
    by (simp_all add: invalid_status_text)
next
  assume a: "q_status q = JStr s \<and> List.member VALID_STATUSES s \<and> \<not> truthy (q_priority q)"
  then have ne: "s \<noteq> []" by (simp add: valid_status_nonempty)
  from a have "js_includes VALID_STATUSES (q_status q)" by simp
  with a listTasks_valid[of q E d who] ne
  obtain rows where r: "listTasks E d who q = (200, TaskList (length rows) rows)"
    and rows: "rows = rev (sort_key t_created_at
        (filter (\<lambda>t. t_user_id t = i_id who \<and> t_status t = s) (tasks d)))"
    by auto
  have "mset rows = mset (filter (\<lambda>t. t_user_id t = i_id who \<and> t_status t = s) (tasks d))"
    by (simp add: rows)
  moreover have "sorted_wrt (\<lambda>x y. t_created_at y \<le> t_created_at x) rows"
    unfolding rows by (rule sorted_desc_rev_sort_key)
  ultimately show "\<exists>rows. listTasks E d who q = (200, TaskList (length rows) rows)
         \<and> mset rows = mset (filter (\<lambda>t. t_user_id t = i_id who \<and> t_status t = s) (tasks d))
         \<and> sorted_wrt (\<lambda>x y. t_created_at y \<le> t_created_at x) rows"
    using r by blast
next
  assume a: "\<not> truthy (q_status q) \<and> \<not> truthy (q_priority q)"
  with listTasks_valid[of q E d who]
  obtain rows where r: "listTasks E d who q = (200, TaskList (length rows) rows)"
    and rows: "rows = rev (sort_key t_created_at
        (filter (\<lambda>t. t_user_id t = i_id who) (tasks d)))"
    by auto
  have "mset rows = mset (filter (\<lambda>t. t_user_id t = i_id who) (tasks d))"
    by (simp add: rows)
  moreover have "sorted_wrt (\<lambda>x y. t_created_at y \<le> t_created_at x) rows"
    unfolding rows by (rule sorted_desc_rev_sort_key)
  ultimately show "\<exists>rows. listTasks E d who q = (200, TaskList (length rows) rows)
         \<and> mset rows = mset (filter (\<lambda>t. t_user_id t = i_id who) (tasks d))
         \<and> sorted_wrt (\<lambda>x y. t_created_at y \<le> t_created_at x) rows"
    using r by blast
qed

theorem list_filter_order_witness:
  "listTasks sample_env sample_db alice \<lparr> q_status = JStr ''done'', q_priority = JUndefined \<rparr> =
     (400, ErrorBody ''ValidationError''
        ''status must be one of: pending, in_progress, completed'')
   \<and> (\<exists>rows. listTasks sample_env sample_db alice \<lparr> q_status = JStr ''pending'', q_priority = JUndefined \<rparr>
          = (200, TaskList (length rows) rows)
        \<and> mset rows = mset (filter (\<lambda>t. t_user_id t = i_id alice \<and> t_status t = ''pending'')
                              (tasks sample_db))
        \<and> sorted_wrt (\<lambda>x y. t_created_at y \<le> t_created_at x) rows)
   \<and> (\<exists>rows. listTasks sample_env sample_db alice \<lparr> q_status = JUndefined, q_priority = JUndefined \<rparr>
          = (200, TaskList (length rows) rows)
        \<and> mset rows = mset (filter (\<lambda>t. t_user_id t = i_id alice) (tasks sample_db))
        \<and> sorted_wrt (\<lambda>x y. t_created_at y \<le> t_created_at x) rows)"
proof -
  have 1: "listTasks sample_env sample_db alice \<lparr> q_status = JStr ''done'', q_priority = JUndefined \<rparr> =
     (400, ErrorBody ''ValidationError''
        ''status must be one of: pending, in_progress, completed'')"
    using list_filter_order
      [where q = "\<lparr> q_status = JStr ''done'', q_priority = JUndefined \<rparr>"
         and d = sample_db and who = alice and E = sample_env]
    by (simp add: VALID_STATUSES_def)
  have 2: "\<exists>rows. listTasks sample_env sample_db alice \<lparr> q_status = JStr ''pending'', q_priority = JUndefined \<rparr>
          = (200, TaskList (length rows) rows)
        \<and> mset rows = mset (filter (\<lambda>t. t_user_id t = i_id alice \<and> t_status t = ''pending'')
                              (tasks sample_db))
        \<and> sorted_wrt (\<lambda>x y. t_created_at y \<le> t_created_at x) rows"
    using list_filter_order
      [where q = "\<lparr> q_status = JStr ''pending'', q_priority = JUndefined \<rparr>"
         and d = sample_db and who = alice and E = sample_env and s = "''pending''"]
    by (simp add: VALID_STATUSES_def)
  have 3: "\<exists>rows. listTasks sample_env sample_db alice \<lparr> q_status = JUndefined, q_priority = JUndefined \<rparr>
          = (200, TaskList (length rows) rows)
        \<and> mset rows = mset (filter (\<lambda>t. t_user_id t = i_id alice) (tasks sample_db))
        \<and> sorted_wrt (\<lambda>x y. t_created_at y \<le> t_created_at x) rows"
    using list_filter_order
      [where q = "\<lparr> q_status = JUndefined, q_priority = JUndefined \<rparr>"
         and d = sample_db and who = alice and E = sample_env]
    by simp
  from 1 2 3 show ?thesis by blast
qed

text \<open>
  The claim as stated fails for the empty string: it is not in the enumeration, and a
  list request carrying it is answered 200 with all of the caller's tasks.
\<close>

theorem list_empty_status_counterexample:
  "\<not> js_includes VALID_STATUSES (JStr '''')
   \<and> listTasks sample_env sample_db alice \<lparr> q_status = JStr '''', q_priority = JUndefined \<rparr> =
       (200, TaskList 2 [task2, task1])"
  by code_simp

section \<open>Partial update\<close>

lemma bind_col: "bind_value E (col x) = Inr x"
  by (cases x) auto

lemma find_map_preserving:
  assumes "\<And>x. P (f x) = P x"
  shows "find P (map f xs) = map_option f (find P xs)"
  using assms by (induction xs) auto

lemma find_Some_list_ex: "find P xs = Some x \<Longrightarrow> list_ex P xs"
  by (induction xs) (auto split: if_splits)

lemma js_trim_status: "js_trim v = Inl e \<Longrightarrow> err_status e = None"
  by (cases v) (auto simp: TypeError_def)

lemma bind_value_status: "bind_value E v = Inl e \<Longrightarrow> err_status e = None"
  by (cases v) (auto simp: TypeError_def)

lemma bind_next_status: "bind_next E n v acc = Inl e \<Longrightarrow> err_status e = None"
  by (auto simp: bind_next_def RangeError_def split: sum.splits if_splits
           dest: bind_value_status)

lemma bind_array_status: "bind_array E n xs acc = Inl e \<Longrightarrow> err_status e = None"
  by (induction xs arbitrary: acc) (auto split: sum.splits dest: bind_next_status)

lemma bind_args_status: "bind_args E n seen args acc = Inl e \<Longrightarrow> err_status e = None"
  by (induction E n seen args acc rule: bind_args.induct)
     (auto simp: RangeError_def TypeError_def split: if_splits sum.splits
           dest: bind_next_status bind_array_status)

lemma bind_all_status: "bind_all E n args = Inl e \<Longrightarrow> err_status e = None"
  unfolding bind_all_def by (rule bind_args_status)

lemma not_null_status: "not_null c p = Inl e \<Longrightarrow> err_status e = None"
  by (cases p) (auto simp: SqliteError_def)

lemma update_task_status:
  "update_task now d p1 p2 p3 p4 p5 w1 w2 = Inl e \<Longrightarrow> err_status e = None"
  unfolding update_task_def
  by (auto split: if_splits sum.splits dest: not_null_status)

lemma run_update_task_status:
  "run_update_task E now d args = Inl e \<Longrightarrow> err_status e = None"
  unfolding run_update_task_def
  by (auto simp: RangeError_def split: sum.splits list.splits
           dest: bind_all_status update_task_status)

lemma updateTask_try_status:
  assumes "updateTask_try E now d who tid b = Inl e"
  shows "err_status e = None"
  using assms
  unfolding updateTask_try_def Let_def
  by (auto split: option.splits if_splits sum.splits
           dest: js_trim_status run_update_task_status)

lemma errorHandler_500:
  "err_status e = None \<Longrightarrow> errorHandler e =
     (500, ErrorBody (if err_name e = [] then ''InternalServerError'' else err_name e)
             ''An unexpected error occurred. Please try again later.'')"
  by (simp add: errorHandler_def)

text \<open>The update statement on arguments that are bound one to one.\<close>

lemma run_update_task_scalars:
  assumes "bind_value E v1 = Inr p1" "bind_value E v2 = Inr p2" "bind_value E v3 = Inr p3"
    "bind_value E v4 = Inr p4" "bind_value E v5 = Inr p5"
  shows "run_update_task E now d [v1, v2, v3, v4, v5, JStr tid, JStr uid] =
     update_task now d p1 p2 p3 p4 p5 (Some tid) (Some uid)"
proof -
  have "bind_all E 7 [v1, v2, v3, v4, v5, JStr tid, JStr uid] =
      Inr [p1, p2, p3, p4, p5, Some tid, Some uid]"
    using assms by (intro bind_all_scalars) simp_all
  then show ?thesis by (simp add: run_update_task_def)
qed

text \<open>The values a well-typed body merges with the stored row.\<close>

lemma supplied_text_or_null:
  assumes "v = JUndefined \<or> v = JNull \<or> (\<exists>s. v = JStr s)"
  shows "\<exists>p. bind_value E (supplied v (col x)) = Inr p
    \<and> (v = JUndefined \<longrightarrow> p = x) \<and> (v \<noteq> JUndefined \<longrightarrow> col p = v)"
  using assms by (auto simp: supplied_def bind_col)

lemma supplied_text:
  assumes "v = JUndefined \<or> v = JNull \<or> (\<exists>s. v = JStr s)"
  shows "\<exists>p. bind_value E (supplied v (JStr x)) = Inr p
    \<and> (v = JNull \<longleftrightarrow> p = None)
    \<and> (v = JUndefined \<longrightarrow> p = Some x) \<and> (\<forall>s. v = JStr s \<longrightarrow> p = Some s)"
  using assms by (auto simp: supplied_def)

lemma enum_or_empty_passes:
  assumes "v = JUndefined \<or> v = JNull \<or> (\<exists>s. v = JStr s \<and> (s = [] \<or> s \<in> set enum))"
  shows "\<not> (truthy v \<and> \<not> js_includes enum v)"
  using assms by auto

text \<open>
  An update of an existing owned task by a well-typed body that passes validation comes
  down to the update statement on the merged values.
\<close>

lemma updateTask_try_wellformed:
  assumes old: "select_task_owned d tid (i_id who) = Some old"
    and ti: "b_title b = JUndefined \<or> (\<exists>s. b_title b = JStr s)"
    and de: "b_description b = JUndefined \<or> b_description b = JNull
               \<or> (\<exists>s. b_description b = JStr s)"
    and st: "b_status b = JUndefined \<or> b_status b = JNull
               \<or> (\<exists>s. b_status b = JStr s \<and> (s = [] \<or> s \<in> set VALID_STATUSES))"
    and pr: "b_priority b = JUndefined \<or> b_priority b = JNull
               \<or> (\<exists>s. b_priority b = JStr s \<and> (s = [] \<or> s \<in> set VALID_PRIORITIES))"
    and du: "b_due_date b = JUndefined \<or> b_due_date b = JNull \<or> (\<exists>s. b_due_date b = JStr s)"
  shows "\<exists>t pde pst ppr pdu.
      updateTask_try E now d who tid b =
        (case update_task now d (Some t) pde pst ppr pdu (Some tid) (Some (i_id who)) of
           Inl e \<Rightarrow> Inl e
         | Inr d' \<Rightarrow> Inr (d', (200, MsgTask ''Task updated.'' (select_task d' tid))))
    \<and> (b_title b = JUndefined \<longrightarrow> t = t_title old) \<and> (\<forall>s. b_title b = JStr s \<longrightarrow> t = trim s)
    \<and> (b_description b = JUndefined \<longrightarrow> pde = t_description old)
    \<and> (b_description b \<noteq> JUndefined \<longrightarrow> col pde = b_description b)
    \<and> (b_status b = JNull \<longleftrightarrow> pst = None)
    \<and> (b_status b = JUndefined \<longrightarrow> pst = Some (t_status old))
    \<and> (\<forall>s. b_status b = JStr s \<longrightarrow> pst = Some s)
    \<and> (b_priority b = JNull \<longleftrightarrow> ppr = None)
    \<and> (b_priority b = JUndefined \<longrightarrow> ppr = Some (t_priority old))
    \<and> (\<forall>s. b_priority b = JStr s \<longrightarrow> ppr = Some s)
    \<and> (b_due_date b = JUndefined \<longrightarrow> pdu = t_due_date old)
    \<and> (b_due_date b \<noteq> JUndefined \<longrightarrow> col pdu = b_due_date b)"
proof -
  obtain t where t: "(if b_title b \<noteq> JUndefined
                then (case js_trim (b_title b) of Inl e \<Rightarrow> Inl e | Inr s \<Rightarrow> Inr (JStr s))
                else Inr (JStr (t_title old))) = (Inr (JStr t) :: js_error + jsval)"
    and t1: "b_title b = JUndefined \<longrightarrow> t = t_title old"
    and t2: "\<forall>s. b_title b = JStr s \<longrightarrow> t = trim s"
    using ti by auto
  from supplied_text_or_null[OF de, of E "t_description old"] obtain pde where
    pde: "bind_value E (supplied (b_description b) (col (t_description old))) = Inr pde"
      "b_description b = JUndefined \<longrightarrow> pde = t_description old"
      "b_description b \<noteq> JUndefined \<longrightarrow> col pde = b_description b"
    by blast
  have st': "b_status b = JUndefined \<or> b_status b = JNull \<or> (\<exists>s. b_status b = JStr s)"
    using st by auto
  from supplied_text[OF st', of E "t_status old"] obtain pst where
    pst: "bind_value E (supplied (b_status b) (JStr (t_status old))) = Inr pst"
      "b_status b = JNull \<longleftrightarrow> pst = None"
      "b_status b = JUndefined \<longrightarrow> pst = Some (t_status old)"
      "\<forall>s. b_status b = JStr s \<longrightarrow> pst = Some s"
    by blast
  have pr': "b_priority b = JUndefined \<or> b_priority b = JNull \<or> (\<exists>s. b_priority b = JStr s)"
    using pr by auto
  from supplied_text[OF pr', of E "t_priority old"] obtain ppr where
    ppr: "bind_value E (supplied (b_priority b) (JStr (t_priority old))) = Inr ppr"
      "b_priority b = JNull \<longleftrightarrow> ppr = None"
      "b_priority b = JUndefined \<longrightarrow> ppr = Some (t_priority old)"
      "\<forall>s. b_priority b = JStr s \<longrightarrow> ppr = Some s"
    by blast
  from supplied_text_or_null[OF du, of E "t_due_date old"] obtain pdu where
    pdu: "bind_value E (supplied (b_due_date b) (col (t_due_date old))) = Inr pdu"
      "b_due_date b = JUndefined \<longrightarrow> pdu = t_due_date old"
      "b_due_date b \<noteq> JUndefined \<longrightarrow> col pdu = b_due_date b"
    by blast
  have bt: "bind_value E (JStr t) = Inr (Some t)" by simp
  have run: "run_update_task E now d
      [JStr t, supplied (b_description b) (col (t_description old)),
       supplied (b_status b) (JStr (t_status old)),
       supplied (b_priority b) (JStr (t_priority old)),
       supplied (b_due_date b) (col (t_due_date old)), JStr tid, JStr (i_id who)] =
     update_task now d (Some t) pde pst ppr pdu (Some tid) (Some (i_id who))"
    by (rule run_update_task_scalars[OF bt pde(1) pst(1) ppr(1) pdu(1)])
  have v1: "(truthy (b_status b) \<and> \<not> js_includes VALID_STATUSES (b_status b)) = False"
    using enum_or_empty_passes[OF st] by simp
  have v2: "(truthy (b_priority b) \<and> \<not> js_includes VALID_PRIORITIES (b_priority b)) = False"
    using enum_or_empty_passes[OF pr] by simp
  have "updateTask_try E now d who tid b =
        (case update_task now d (Some t) pde pst ppr pdu (Some tid) (Some (i_id who)) of
           Inl e \<Rightarrow> Inl e
         | Inr d' \<Rightarrow> Inr (d', (200, MsgTask ''Task updated.'' (select_task d' tid))))"
    unfolding updateTask_try_def Let_def
    by (simp only: old option.case v1 v2 if_False t sum.case run)
  with t1 t2 pde(2,3) pst(2,3,4) ppr(2,3,4) pdu(2,3) show ?thesis by blast
qed

lemma update_task_null:
  assumes "list_ex (\<lambda>t. t_id t = tid \<and> t_user_id t = uid) (tasks d)"
    and "pst = None \<or> ppr = None"
  shows "\<exists>m. update_task now d (Some t) pde pst ppr pdu (Some tid) (Some uid) =
     Inl (SqliteError m)"
  using assms by (cases pst; cases ppr) (auto simp: update_task_def)

lemma update_task_values:
  assumes "list_ex (\<lambda>t. t_id t = tid \<and> t_user_id t = uid) (tasks d)"
  shows "update_task now d (Some ti) pde (Some st) (Some pr) pdu (Some tid) (Some uid) =
     Inr (d\<lparr> tasks := map (\<lambda>t. if t_id t = tid \<and> t_user_id t = uid
                 then t\<lparr> t_title := ti, t_description := pde, t_status := st,
                        t_priority := pr, t_due_date := pdu, t_updated_at := now \<rparr>
                 else t) (tasks d) \<rparr>)"
  using assms by (simp add: update_task_def)

lemma filter_map_others:
  assumes "\<And>t. P (f t) = P t"
  shows "filter (\<lambda>t. \<not> P t) (map (\<lambda>t. if P t then f t else t) xs) = filter (\<lambda>t. \<not> P t) xs"
  using assms by (induction xs) auto

text \<open>
  Claim C2, as amended. Take an existing owned task and a body in which every field is
  absent or holds a value of its column's kind: the title a string; description and due
  date a string or \<open>null\<close>; status and priority \<open>null\<close>, the empty string or a member
  of the enumeration. When the status or the priority is \<open>null\<close>, the \<open>NOT NULL\<close>
  column refuses the update: the answer is 500 and the store is unchanged. Otherwise
  the update succeeds with 200 and returns the row; each absent field keeps its stored
  value, each present field holds the supplied value (the title trimmed; \<open>null\<close> as
  \<open>NULL\<close>), \<open>updated_at\<close> is the current time, id, owner and \<open>created_at\<close> stay, and
  no other row and no user changes.
\<close>

theorem update_merge:
  assumes "select_task_owned d tid (i_id who) = Some old"
    and "b_title b = JUndefined \<or> (\<exists>s. b_title b = JStr s)"
    and "b_description b = JUndefined \<or> b_description b = JNull
           \<or> (\<exists>s. b_description b = JStr s)"
    and "b_status b = JUndefined \<or> b_status b = JNull
           \<or> (\<exists>s. b_status b = JStr s \<and> (s = [] \<or> s \<in> set VALID_STATUSES))"
    and "b_priority b = JUndefined \<or> b_priority b = JNull
           \<or> (\<exists>s. b_priority b = JStr s \<and> (s = [] \<or> s \<in> set VALID_PRIORITIES))"
    and "b_due_date b = JUndefined \<or> b_due_date b = JNull \<or> (\<exists>s. b_due_date b = JStr s)"
  shows "(b_status b = JNull \<or> b_priority b = JNull \<longrightarrow>
      updateTask E now d who tid b =
        (d, (500, ErrorBody ''SqliteError''
               ''An unexpected error occurred. Please try again later.'')))
    \<and> (b_status b \<noteq> JNull \<and> b_priority b \<noteq> JNull \<longrightarrow>
      (\<exists>d' new. updateTask E now d who tid b =
           (d', (200, MsgTask ''Task updated.'' (select_task d' tid)))
        \<and> select_task_owned d' tid (i_id who) = Some new
        \<and> (b_title b = JUndefined \<longrightarrow> t_title new = t_title old)
        \<and> (\<forall>s. b_title b = JStr s \<longrightarrow> t_title new = trim s)
        \<and> (b_description b = JUndefined \<longrightarrow> t_description new = t_description old)
        \<and> (b_description b \<noteq> JUndefined \<longrightarrow> col (t_description new) = b_description b)
        \<and> (b_status b = JUndefined \<longrightarrow> t_status new = t_status old)
        \<and> (b_status b \<noteq> JUndefined \<longrightarrow> JStr (t_status new) = b_status b)
        \<and> (b_priority b = JUndefined \<longrightarrow> t_priority new = t_priority old)
        \<and> (b_priority b \<noteq> JUndefined \<longrightarrow> JStr (t_priority new) = b_priority b)
        \<and> (b_due_date b = JUndefined \<longrightarrow> t_due_date new = t_due_date old)
        \<and> (b_due_date b \<noteq> JUndefined \<longrightarrow> col (t_due_date new) = b_due_date b)
        \<and> t_updated_at new = now \<and> t_created_at new = t_created_at old
        \<and> t_id new = t_id old \<and> t_user_id new = t_user_id old
        \<and> users d' = users d
        \<and> filter (\<lambda>t. \<not> (t_id t = tid \<and> t_user_id t = i_id who)) (tasks d') =
            filter (\<lambda>t. \<not> (t_id t = tid \<and> t_user_id t = i_id who)) (tasks d)))"
proof -
  let ?P = "\<lambda>t. t_id t = tid \<and> t_user_id t = i_id who"
  from updateTask_try_wellformed[OF assms, of E now]
  obtain t pde pst ppr pdu where
      tr: "updateTask_try E now d who tid b =
        (case update_task now d (Some t) pde pst ppr pdu (Some tid) (Some (i_id who)) of
           Inl e \<Rightarrow> Inl e
         | Inr d' \<Rightarrow> Inr (d', (200, MsgTask ''Task updated.'' (select_task d' tid))))"
    and t: "b_title b = JUndefined \<longrightarrow> t = t_title old" "\<forall>s. b_title b = JStr s \<longrightarrow> t = trim s"
    and pde: "b_description b = JUndefined \<longrightarrow> pde = t_description old"
      "b_description b \<noteq> JUndefined \<longrightarrow> col pde = b_description b"
    and pst: "b_status b = JNull \<longleftrightarrow> pst = None"
      "b_status b = JUndefined \<longrightarrow> pst = Some (t_status old)"
      "\<forall>s. b_status b = JStr s \<longrightarrow> pst = Some s"
    and ppr: "b_priority b = JNull \<longleftrightarrow> ppr = None"
      "b_priority b = JUndefined \<longrightarrow> ppr = Some (t_priority old)"
      "\<forall>s. b_priority b = JStr s \<longrightarrow> ppr = Some s"
    and pdu: "b_due_date b = JUndefined \<longrightarrow> pdu = t_due_date old"
      "b_due_date b \<noteq> JUndefined \<longrightarrow> col pdu = b_due_date b"
    by blast
  have ex: "list_ex ?P (tasks d)"
    using assms(1) unfolding select_task_owned_def by (rule find_Some_list_ex)
  have P_old: "?P old"
    using assms(1) unfolding select_task_owned_def by (auto simp: find_Some_iff)
  have null: "updateTask E now d who tid b =
        (d, (500, ErrorBody ''SqliteError''
               ''An unexpected error occurred. Please try again later.''))"
    if "b_status b = JNull \<or> b_priority b = JNull"
  proof -
    from that pst(1) ppr(1) have "pst = None \<or> ppr = None" by blast
    from update_task_null[OF ex this] obtain m where
      "update_task now d (Some t) pde pst ppr pdu (Some tid) (Some (i_id who)) =
         Inl (SqliteError m)" by blast
    with tr have "updateTask_try E now d who tid b = Inl (SqliteError m)" by simp
    then show ?thesis by (simp add: updateTask_def errorHandler_def SqliteError_def)
  qed
  have ok: "\<exists>d' new. updateTask E now d who tid b =
           (d', (200, MsgTask ''Task updated.'' (select_task d' tid)))
        \<and> select_task_owned d' tid (i_id who) = Some new
        \<and> (b_title b = JUndefined \<longrightarrow> t_title new = t_title old)
        \<and> (\<forall>s. b_title b = JStr s \<longrightarrow> t_title new = trim s)
        \<and> (b_description b = JUndefined \<longrightarrow> t_description new = t_description old)
        \<and> (b_description b \<noteq> JUndefined \<longrightarrow> col (t_description new) = b_description b)
        \<and> (b_status b = JUndefined \<longrightarrow> t_status new = t_status old)
        \<and> (b_status b \<noteq> JUndefined \<longrightarrow> JStr (t_status new) = b_status b)
        \<and> (b_priority b = JUndefined \<longrightarrow> t_priority new = t_priority old)
        \<and> (b_priority b \<noteq> JUndefined \<longrightarrow> JStr (t_priority new) = b_priority b)
        \<and> (b_due_date b = JUndefined \<longrightarrow> t_due_date new = t_due_date old)
        \<and> (b_due_date b \<noteq> JUndefined \<longrightarrow> col (t_due_date new) = b_due_date b)
        \<and> t_updated_at new = now \<and> t_created_at new = t_created_at old
        \<and> t_id new = t_id old \<and> t_user_id new = t_user_id old
        \<and> users d' = users d
        \<and> filter (\<lambda>t. \<not> ?P t) (tasks d') = filter (\<lambda>t. \<not> ?P t) (tasks d)"
    if nn: "b_status b \<noteq> JNull \<and> b_priority b \<noteq> JNull"
  proof -
    from nn pst(1) ppr(1) obtain s p where sp: "pst = Some s" "ppr = Some p" by auto
    let ?f = "\<lambda>x. x\<lparr> t_title := t, t_description := pde, t_status := s,
                        t_priority := p, t_due_date := pdu, t_updated_at := now \<rparr>"
    let ?d' = "d\<lparr> tasks := map (\<lambda>x. if ?P x then ?f x else x) (tasks d) \<rparr>"
    have up: "update_task now d (Some t) pde pst ppr pdu (Some tid) (Some (i_id who)) = Inr ?d'"
      unfolding sp by (rule update_task_values[OF ex])
    with tr have "updateTask_try E now d who tid b =
        Inr (?d', (200, MsgTask ''Task updated.'' (select_task ?d' tid)))" by simp
    then have res: "updateTask E now d who tid b =
        (?d', (200, MsgTask ''Task updated.'' (select_task ?d' tid)))"
      by (simp add: updateTask_def)
    have "find ?P (map (\<lambda>x. if ?P x then ?f x else x) (tasks d)) =
        map_option (\<lambda>x. if ?P x then ?f x else x) (find ?P (tasks d))"
      by (rule find_map_preserving) simp
    with assms(1) P_old have new: "select_task_owned ?d' tid (i_id who) = Some (?f old)"
      by (simp add: select_task_owned_def)
    have others: "filter (\<lambda>t. \<not> ?P t) (tasks ?d') = filter (\<lambda>t. \<not> ?P t) (tasks d)"
      using filter_map_others[of ?P ?f "tasks d"] by simp
    have st1: "b_status b = JUndefined \<longrightarrow> s = t_status old"
      and st2: "b_status b \<noteq> JUndefined \<longrightarrow> JStr s = b_status b"
      using pst sp(1) assms(4) by auto
    have pr1: "b_priority b = JUndefined \<longrightarrow> p = t_priority old"
      and pr2: "b_priority b \<noteq> JUndefined \<longrightarrow> JStr p = b_priority b"
      using ppr sp(2) assms(5) by auto
    show ?thesis
      apply (rule exI[of _ ?d'], rule exI[of _ "?f old"])
      using res new others t pde pdu st1 st2 pr1 pr2 by simp
  qed
  from null ok show ?thesis by blast
qed

theorem update_merge_witness:
  "updateTask sample_env 30 sample_db alice ''t1'' (no_fields\<lparr> b_priority := JNull \<rparr>) =
     (sample_db, (500, ErrorBody ''SqliteError''
        ''An unexpected error occurred. Please try again later.''))
   \<and> (\<exists>d' new.
         updateTask sample_env 30 sample_db alice ''t1''
           (no_fields\<lparr> b_status := JStr ''completed'', b_description := JNull \<rparr>) =
           (d', (200, MsgTask ''Task updated.'' (select_task d' ''t1'')))
       \<and> select_task_owned d' ''t1'' ''u1'' = Some new
       \<and> t_title new = ''write report'' \<and> t_description new = None
       \<and> t_status new = ''completed'' \<and> t_priority new = ''medium''
       \<and> t_due_date new = None \<and> t_updated_at new = 30 \<and> t_created_at new = 10)"
proof -
  let ?b1 = "no_fields\<lparr> b_priority := JNull \<rparr>"
  let ?b2 = "no_fields\<lparr> b_status := JStr ''completed'', b_description := JNull \<rparr>"
  have old: "select_task_owned sample_db ''t1'' (i_id alice) = Some task1" by code_simp
  have who: "i_id alice = ''u1''" by (simp add: alice_def)
  have stored: "t_title task1 = ''write report''" "t_priority task1 = ''medium''"
    "t_due_date task1 = None" "t_created_at task1 = 10"
    by (simp_all add: task1_def)
  have 1: "updateTask sample_env 30 sample_db alice ''t1'' ?b1 =
     (sample_db, (500, ErrorBody ''SqliteError''
        ''An unexpected error occurred. Please try again later.''))"
    using update_merge [OF old, of ?b1 sample_env 30] by (simp add: no_fields_def)
  have "\<exists>d' new.
         updateTask sample_env 30 sample_db alice ''t1'' ?b2 =
           (d', (200, MsgTask ''Task updated.'' (select_task d' ''t1'')))
       \<and> select_task_owned d' ''t1'' (i_id alice) = Some new
       \<and> t_title new = t_title task1 \<and> col (t_description new) = JNull
       \<and> JStr (t_status new) = JStr ''completed'' \<and> t_priority new = t_priority task1
       \<and> t_due_date new = t_due_date task1 \<and> t_updated_at new = 30
       \<and> t_created_at new = t_created_at task1"
    using update_merge [OF old, of ?b2 sample_env 30]
    by (simp add: no_fields_def VALID_STATUSES_def) blast
  then obtain d' new where n:
      "updateTask sample_env 30 sample_db alice ''t1'' ?b2 =
           (d', (200, MsgTask ''Task updated.'' (select_task d' ''t1'')))"
      "select_task_owned d' ''t1'' (i_id alice) = Some new"
      "t_title new = t_title task1" "col (t_description new) = JNull"
      "JStr (t_status new) = JStr ''completed''" "t_priority new = t_priority task1"
      "t_due_date new = t_due_date task1" "t_updated_at new = 30"
      "t_created_at new = t_created_at task1"
    by blast
  from n(4) have "t_description new = None" by (cases "t_description new") auto
  with n have 2: "\<exists>d' new.
         updateTask sample_env 30 sample_db alice ''t1'' ?b2 =
           (d', (200, MsgTask ''Task updated.'' (select_task d' ''t1'')))
       \<and> select_task_owned d' ''t1'' ''u1'' = Some new
       \<and> t_title new = ''write report'' \<and> t_description new = None
       \<and> t_status new = ''completed'' \<and> t_priority new = ''medium''
       \<and> t_due_date new = None \<and> t_updated_at new = 30 \<and> t_created_at new = 10"
    unfolding who stored by auto
  from 1 2 show ?thesis by blast
qed

text \<open>
  The claim as stated fails for a status sent as \<open>null\<close>: the key is present, the
  \<open>NOT NULL\<close> column refuses the value, the answer is 500 and the stored status is not
  overwritten.
\<close>

theorem update_null_status_counterexample:
  "b_status (no_fields\<lparr> b_status := JNull \<rparr>) = JNull
   \<and> snd (updateTask sample_env 30 sample_db alice ''t1'' (no_fields\<lparr> b_status := JNull \<rparr>)) =
       (500, ErrorBody ''SqliteError'' ''An unexpected error occurred. Please try again later.'')
   \<and> select_task_owned
        (fst (updateTask sample_env 30 sample_db alice ''t1'' (no_fields\<lparr> b_status := JNull \<rparr>)))
        ''t1'' ''u1'' = Some task1
   \<and> t_status task1 = ''pending''"
  by code_simp

text \<open>
  Outside the bodies of the theorem: an array is a list of positional values to the
  driver, so a description of two elements next to an empty due date fills the
  placeholders of description and status, and the stored status and priority, both
  absent from the body, are overwritten.
\<close>

lemma update_array_shifts_columns:
  "fst (snd (updateTask sample_env 30 sample_db alice ''t1''
      (no_fields\<lparr> b_description := JArr [JStr ''a'', JStr ''b''], b_due_date := JArr [] \<rparr>))) = 200
   \<and> map_option (\<lambda>t. (t_description t, t_status t, t_priority t, t_due_date t))
       (select_task
          (fst (updateTask sample_env 30 sample_db alice ''t1''
             (no_fields\<lparr> b_description := JArr [JStr ''a'', JStr ''b''],
                          b_due_date := JArr [] \<rparr>)))
          ''t1'') = Some (Some ''a'', ''b'', ''pending'', Some ''medium'')"
  by code_simp

section \<open>Validation of task fields\<close>

lemma list_invalid:
  assumes "(truthy (q_status q) \<and> \<not> js_includes VALID_STATUSES (q_status q))
    \<or> (truthy (q_priority q) \<and> \<not> js_includes VALID_PRIORITIES (q_priority q))"
  shows "\<exists>m. listTasks E d who q = (400, ErrorBody ''ValidationError'' m)"
  using assms
  by (auto simp: listTasks_def listTasks_try_def Let_def invalid_status_def
        invalid_priority_def)

lemma title_missing_string: "title_missing (JStr s) = Inr (trim s = [])"
  by (simp add: title_missing_def trim_def)

lemma title_missing_falsy: "\<not> truthy v \<Longrightarrow> title_missing v = Inr True"
  by (simp add: title_missing_def)

lemma title_present:
  "title_missing v = Inr False \<Longrightarrow> \<exists>s. v = JStr s \<and> trim s \<noteq> []"
  by (cases v) (auto simp: title_missing_def trim_def split: if_splits)

lemma create_invalid:
  assumes "\<not> truthy (b_title b) \<or> (\<exists>s. b_title b = JStr s)"
    and "(truthy (b_status b) \<and> \<not> js_includes VALID_STATUSES (b_status b))
      \<or> (truthy (b_priority b) \<and> \<not> js_includes VALID_PRIORITIES (b_priority b))"
  shows "\<exists>m. createTask E now uuid d who b = (d, (400, ErrorBody ''ValidationError'' m))"
proof -
  obtain miss where m: "title_missing (b_title b) = Inr miss"
    using assms(1) by (cases "b_title b") (auto simp: title_missing_string title_missing_falsy)
  show ?thesis
    using assms(2) m
    by (auto simp: createTask_def createTask_try_def Let_def invalid_status_def
        invalid_priority_def)
qed

lemma update_invalid:
  assumes "select_task_owned d tid (i_id who) = Some old"
    and "(truthy (b_status b) \<and> \<not> js_includes VALID_STATUSES (b_status b))
      \<or> (truthy (b_priority b) \<and> \<not> js_includes VALID_PRIORITIES (b_priority b))"
  shows "\<exists>m. updateTask E now d who tid b = (d, (400, ErrorBody ''ValidationError'' m))"
  using assms
  by (auto simp: updateTask_def updateTask_try_def Let_def invalid_status_def
        invalid_priority_def)

lemma update_null_title:
  assumes "select_task_owned d tid (i_id who) = Some old"
    and "b_title b = JNull"
    and "\<not> (truthy (b_status b) \<and> \<not> js_includes VALID_STATUSES (b_status b))"
    and "\<not> (truthy (b_priority b) \<and> \<not> js_includes VALID_PRIORITIES (b_priority b))"
  shows "updateTask E now d who tid b =
     (d, (500, ErrorBody ''TypeError'' ''An unexpected error occurred. Please try again later.''))"
  using assms
  by (auto simp: updateTask_def updateTask_try_def Let_def errorHandler_def TypeError_def)

lemma dropWhile_fix: "xs = [] \<or> \<not> P (hd xs) \<Longrightarrow> dropWhile P xs = xs"
  by (cases xs) auto

lemma hd_dropWhile': "dropWhile P xs = [] \<or> \<not> P (hd (dropWhile P xs))"
  by (induction xs) auto

lemma last_dropWhile_rev:
  "dropWhile P (rev xs) \<noteq> [] \<Longrightarrow> xs \<noteq> [] \<and> last (dropWhile P (rev xs)) = hd xs"
proof -
  assume ne: "dropWhile P (rev xs) \<noteq> []"
  then have xs: "xs \<noteq> []" by auto
  have "rev xs = takeWhile P (rev xs) @ dropWhile P (rev xs)" by simp
  then have "last (rev xs) = last (dropWhile P (rev xs))"
    using ne by (metis last_appendR)
  with xs show ?thesis by (simp add: last_rev)
qed

lemma trim_idem: "trim (trim s) = trim s"
proof -
  let ?a = "dropWhile is_space s"
  let ?b = "dropWhile is_space (rev ?a)"
  have a: "?a = [] \<or> \<not> is_space (hd ?a)" by (rule hd_dropWhile')
  have b: "?b = [] \<or> \<not> is_space (hd ?b)" by (rule hd_dropWhile')
  have "rev ?b = [] \<or> \<not> is_space (hd (rev ?b))"
  proof (cases "?b = []")
    case True
    then show ?thesis by simp
  next
    case False
    from last_dropWhile_rev[OF False] a have "\<not> is_space (last ?b)" by auto
    with False show ?thesis by (simp add: hd_rev)
  qed
  then have 1: "dropWhile is_space (rev ?b) = rev ?b" by (rule dropWhile_fix)
  have 2: "dropWhile is_space ?b = ?b" using b by (rule dropWhile_fix)
  show ?thesis unfolding trim_def using 1 2 by simp
qed

lemma insert_task_status:
  "insert_task now d tid p1 p2 p3 p4 p5 p6 = Inl e \<Longrightarrow> err_status e = None"
  unfolding insert_task_def
  by (auto split: if_splits sum.splits dest: not_null_status simp: SqliteError_def)

lemma run_insert_task_status:
  "run_insert_task E now d args = Inl e \<Longrightarrow> err_status e = None"
  unfolding run_insert_task_def
  by (auto simp: RangeError_def split: sum.splits list.splits option.splits
           dest: bind_all_status insert_task_status)

lemma createTask_try_status:
  assumes "createTask_try E now uuid d who b = Inl e"
  shows "err_status e = None"
  using assms
  unfolding createTask_try_def Let_def title_missing_def
  by (auto split: if_splits sum.splits
           dest: js_trim_status run_insert_task_status)

lemma createTask_201:
  assumes "createTask E now uuid d who b = (d', (201, r))"
  shows "createTask_try E now uuid d who b = Inr (d', (201, r))"
proof (cases "createTask_try E now uuid d who b")
  case (Inl e)
  then have "createTask E now uuid d who b = (d, errorHandler e)" by (simp add: createTask_def)
  with assms createTask_try_status[OF Inl] show ?thesis by (simp add: errorHandler_500)
next
  case (Inr x)
  with assms show ?thesis by (simp add: createTask_def)
qed

lemma insert_task_Inr:
  assumes "insert_task now d tid p_user p_title de p_status p_priority du = Inr d'"
  shows "\<exists>uid ti st pr. p_user = Some uid \<and> p_title = Some ti \<and> p_status = Some st
    \<and> p_priority = Some pr
    \<and> \<not> list_ex (\<lambda>t. t_id t = tid) (tasks d) \<and> list_ex (\<lambda>u. u_id u = uid) (users d)
    \<and> d' = d\<lparr> tasks := tasks d @
             [\<lparr> t_id = tid, t_user_id = uid, t_title = ti, t_description = de,
                t_status = st, t_priority = pr, t_due_date = du,
                t_created_at = now, t_updated_at = now \<rparr>] \<rparr>"
  using assms unfolding insert_task_def
  by (cases p_user; cases p_title; cases p_status; cases p_priority) (auto split: if_splits)

text \<open>A successful insert of a task: the seven bound values and the row they make.\<close>

lemma run_insert_task_Inr:
  assumes "run_insert_task E now d args = Inr d'"
  shows "\<exists>tid uid ti de st pr du.
      bind_all E 7 args = Inr [Some tid, Some uid, Some ti, de, Some st, Some pr, du]
    \<and> \<not> list_ex (\<lambda>t. t_id t = tid) (tasks d) \<and> list_ex (\<lambda>u. u_id u = uid) (users d)
    \<and> d' = d\<lparr> tasks := tasks d @
             [\<lparr> t_id = tid, t_user_id = uid, t_title = ti, t_description = de,
                t_status = st, t_priority = pr, t_due_date = du,
                t_created_at = now, t_updated_at = now \<rparr>] \<rparr>"
proof -
  from assms obtain ps where ps: "bind_all E 7 args = Inr ps"
    by (auto simp: run_insert_task_def split: sum.splits)
  with assms obtain tid p2 p3 p4 p5 p6 p7 where
      shape: "ps = [Some tid, p2, p3, p4, p5, p6, p7]"
    and ins: "insert_task now d tid p2 p3 p4 p5 p6 p7 = Inr d'"
    by (auto simp: run_insert_task_def split: list.splits option.splits)
  from insert_task_Inr[OF ins] ps shape show ?thesis by auto
qed

text \<open>
  The first three arguments of the insert are strings, so the first three placeholders
  hold them whatever follows.
\<close>

lemma bind_all_three_strings:
  assumes "bind_all E 7 (JStr a # JStr b # JStr c # rest) = Inr ps"
  shows "\<exists>r. ps = [Some a, Some b, Some c] @ r"
proof -
  from assms have "bind_args E 7 False rest [Some a, Some b, Some c] = Inr ps"
    by (simp add: bind_all_def bind_next_def)
  from bind_args_Inr[OF this] show ?thesis by simp
qed

text \<open>
  Every task Create writes has the id and the owner of the request and the trimmed,
  non-empty title of the body.
\<close>

lemma createTask_created:
  assumes "createTask E now uuid d who b = (d', (201, r))"
  shows "\<exists>s t. b_title b = JStr s \<and> trim s \<noteq> []
    \<and> d' = d\<lparr> tasks := tasks d @ [t] \<rparr>
    \<and> t_id t = uuid \<and> t_user_id t = i_id who \<and> t_title t = trim s
    \<and> t_created_at t = now \<and> t_updated_at t = now
    \<and> \<not> list_ex (\<lambda>t. t_id t = uuid) (tasks d) \<and> list_ex (\<lambda>u. u_id u = i_id who) (users d)"
proof -
  note tr = createTask_201[OF assms]
  from tr have "title_missing (b_title b) = Inr False"
    unfolding createTask_try_def Let_def by (auto split: sum.splits if_splits)
  from title_present[OF this] obtain s where s: "b_title b = JStr s" "trim s \<noteq> []" by blast
  let ?args = "[JStr uuid, JStr (i_id who), JStr (trim s), js_or (b_description b) JNull,
                js_or (b_status b) (JStr ''pending''), js_or (b_priority b) (JStr ''medium''),
                js_or (b_due_date b) JNull]"
  from tr s have ins: "run_insert_task E now d ?args = Inr d'"
    unfolding createTask_try_def Let_def invalid_status_def invalid_priority_def
    by (auto simp: title_missing_string split: if_splits sum.splits)
  from run_insert_task_Inr[OF ins] obtain tid uid ti de st pr du where
      b: "bind_all E 7 ?args = Inr [Some tid, Some uid, Some ti, de, Some st, Some pr, du]"
    and fresh: "\<not> list_ex (\<lambda>t. t_id t = tid) (tasks d)"
    and owner: "list_ex (\<lambda>u. u_id u = uid) (users d)"
    and d': "d' = d\<lparr> tasks := tasks d @
             [\<lparr> t_id = tid, t_user_id = uid, t_title = ti, t_description = de,
                t_status = st, t_priority = pr, t_due_date = du,
                t_created_at = now, t_updated_at = now \<rparr>] \<rparr>"
    by blast
  from bind_all_three_strings[OF b] have "tid = uuid" "uid = i_id who" "ti = trim s" by auto
  with s fresh owner d' show ?thesis by auto
qed

lemma enum_or_default:
  assumes "\<not> (truthy v \<and> \<not> js_includes enum v)" and "List.member enum dflt"
  shows "\<exists>st. bind_value E (js_or v (JStr dflt)) = Inr (Some st) \<and> List.member enum st
    \<and> st = (case v of JStr s \<Rightarrow> if s = [] then dflt else s | _ \<Rightarrow> dflt)"
  using assms by (cases v) (auto simp: js_or_def split: if_splits)

text \<open>
  Arguments none of which is an array or an object are bound one to one, or not at all.
\<close>

lemma bind_args_no_compound:
  "bind_args E n seen args acc = Inr ps \<Longrightarrow>
   \<forall>v\<in>set args. (\<forall>xs. v \<noteq> JArr xs) \<and> (\<forall>kvs. v \<noteq> JObj kvs) \<Longrightarrow>
   \<exists>qs. ps = acc @ qs \<and> list_all2 (\<lambda>v p. bind_value E v = Inr p) args qs"
proof (induction args arbitrary: acc)
  case Nil
  then show ?case by (auto split: if_splits)
next
  case (Cons v args)
  from Cons.prems(2) have nc: "(\<forall>xs. v \<noteq> JArr xs) \<and> (\<forall>kvs. v \<noteq> JObj kvs)" by simp
  then have unfold: "bind_args E n seen (v # args) acc =
      (case bind_next E n v acc of Inl e \<Rightarrow> Inl e | Inr acc' \<Rightarrow> bind_args E n seen args acc')"
    by (cases v) simp_all
  with Cons.prems(1) obtain a where a: "bind_next E n v acc = Inr a"
    and rest: "bind_args E n seen args a = Inr ps"
    by (auto split: sum.splits)
  from bind_next_Inr[OF a] obtain p where p: "bind_value E v = Inr p" "a = acc @ [p]" by blast
  from Cons.IH[OF rest] Cons.prems(2) obtain qs where
    "ps = a @ qs" "list_all2 (\<lambda>v p. bind_value E v = Inr p) args qs" by auto
  with p show ?case by (intro exI[of _ "p # qs"]) simp
qed

text \<open>
  When neither the description nor the due date is an array or an object, nothing
  shifts: the row Create writes has the validated status and priority, or the defaults.
\<close>

lemma createTask_success:
  assumes "createTask E now uuid d who b = (d', (201, r))"
    and "(\<forall>xs. b_description b \<noteq> JArr xs) \<and> (\<forall>kvs. b_description b \<noteq> JObj kvs)"
    and "(\<forall>xs. b_due_date b \<noteq> JArr xs) \<and> (\<forall>kvs. b_due_date b \<noteq> JObj kvs)"
  shows "\<exists>t. tasks d' = tasks d @ [t]
    \<and> t_status t = (case b_status b of JStr x \<Rightarrow> if x = [] then ''pending'' else x
                                     | _ \<Rightarrow> ''pending'')
    \<and> t_priority t = (case b_priority b of JStr x \<Rightarrow> if x = [] then ''medium'' else x
                                     | _ \<Rightarrow> ''medium'')
    \<and> List.member VALID_STATUSES (t_status t) \<and> List.member VALID_PRIORITIES (t_priority t)
    \<and> bind_value E (js_or (b_description b) JNull) = Inr (t_description t)
    \<and> bind_value E (js_or (b_due_date b) JNull) = Inr (t_due_date t)"
proof -
  note tr = createTask_201[OF assms(1)]
  from tr have "title_missing (b_title b) = Inr False"
    unfolding createTask_try_def Let_def by (auto split: sum.splits if_splits)
  from title_present[OF this] obtain s where s: "b_title b = JStr s" "trim s \<noteq> []" by blast
  let ?de = "js_or (b_description b) JNull"
  let ?du = "js_or (b_due_date b) JNull"
  let ?st = "js_or (b_status b) (JStr ''pending'')"
  let ?pr = "js_or (b_priority b) (JStr ''medium'')"
  let ?args = "[JStr uuid, JStr (i_id who), JStr (trim s), ?de, ?st, ?pr, ?du]"
  from tr s have ok: "\<not> (truthy (b_status b) \<and> \<not> js_includes VALID_STATUSES (b_status b))"
      "\<not> (truthy (b_priority b) \<and> \<not> js_includes VALID_PRIORITIES (b_priority b))"
    and ins: "run_insert_task E now d ?args = Inr d'"
    unfolding createTask_try_def Let_def invalid_status_def invalid_priority_def
    by (auto simp: title_missing_string split: if_splits sum.splits)
  from enum_or_default[OF ok(1), of "''pending''" E] obtain st where
    st: "bind_value E ?st = Inr (Some st)" "List.member VALID_STATUSES st"
      "st = (case b_status b of JStr x \<Rightarrow> if x = [] then ''pending'' else x | _ \<Rightarrow> ''pending'')"
    by (auto simp: VALID_STATUSES_def)
  from enum_or_default[OF ok(2), of "''medium''" E] obtain pr where
    pr: "bind_value E ?pr = Inr (Some pr)" "List.member VALID_PRIORITIES pr"
      "pr = (case b_priority b of JStr x \<Rightarrow> if x = [] then ''medium'' else x | _ \<Rightarrow> ''medium'')"
    by (auto simp: VALID_PRIORITIES_def)
  from run_insert_task_Inr[OF ins] obtain tid uid ti de st' pr' du where
      b: "bind_all E 7 ?args = Inr [Some tid, Some uid, Some ti, de, Some st', Some pr', du]"
    and d': "d' = d\<lparr> tasks := tasks d @
             [\<lparr> t_id = tid, t_user_id = uid, t_title = ti, t_description = de,
                t_status = st', t_priority = pr', t_due_date = du,
                t_created_at = now, t_updated_at = now \<rparr>] \<rparr>"
    by blast
  have nc_de: "(\<forall>xs. ?de \<noteq> JArr xs) \<and> (\<forall>kvs. ?de \<noteq> JObj kvs)"
    using assms(2) by (auto simp: js_or_def)
  have nc_du: "(\<forall>xs. ?du \<noteq> JArr xs) \<and> (\<forall>kvs. ?du \<noteq> JObj kvs)"
    using assms(3) by (auto simp: js_or_def)
  have nc_st: "(\<forall>xs. ?st \<noteq> JArr xs) \<and> (\<forall>kvs. ?st \<noteq> JObj kvs)"
    using st(1) by auto
  have nc_pr: "(\<forall>xs. ?pr \<noteq> JArr xs) \<and> (\<forall>kvs. ?pr \<noteq> JObj kvs)"
    using pr(1) by auto
  have "\<forall>v\<in>set ?args. (\<forall>xs. v \<noteq> JArr xs) \<and> (\<forall>kvs. v \<noteq> JObj kvs)"
    using nc_de nc_du nc_st nc_pr by simp
  from bind_args_no_compound[OF b[unfolded bind_all_def] this]
  have "list_all2 (\<lambda>v p. bind_value E v = Inr p) ?args
          [Some tid, Some uid, Some ti, de, Some st', Some pr', du]"
    by simp
  then have vals: "bind_value E ?de = Inr de" "bind_value E ?st = Inr (Some st')"
    "bind_value E ?pr = Inr (Some pr')" "bind_value E ?du = Inr du"
    by simp_all
  from vals(2) st(1) have "st' = st" by simp
  moreover from vals(3) pr(1) have "pr' = pr" by simp
  ultimately show ?thesis
    using d' st(2,3) pr(2,3) vals(1,4) by auto
qed

lemma list_falsy_status:
  "\<not> truthy (q_status q) \<Longrightarrow>
   listTasks E d who q = listTasks E d who (q\<lparr> q_status := JUndefined \<rparr>)"
  by (simp add: listTasks_def listTasks_try_def Let_def pushed_def)

lemma list_falsy_priority:
  "\<not> truthy (q_priority q) \<Longrightarrow>
   listTasks E d who q = listTasks E d who (q\<lparr> q_priority := JUndefined \<rparr>)"
  by (simp add: listTasks_def listTasks_try_def Let_def pushed_def)

lemma create_title_nonempty:
  assumes "createTask E now uuid d who b = (d', (201, r))"
  shows "\<exists>t. tasks d' = tasks d @ [t] \<and> trim (t_title t) \<noteq> []"
  using createTask_created[OF assms] by (auto simp: trim_idem)

text \<open>
  Claim C4, as amended. A status or priority value that is truthy and not in its
  enumeration is answered 400 \<open>ValidationError\<close> with the store unchanged: by List
  always, by Create when the title is falsy or a string (any other title makes the
  handler throw first), by Update when the task exists and is owned by the caller. A
  falsy value (the empty string, \<open>null\<close>, \<open>false\<close>, zero) counts as not supplied in
  List and Create: List ignores it as a filter, and the row Create writes, when neither
  the description nor the due date of the body is an array or an object, has a status
  and a priority from the enumerations, the default when the value is falsy.
\<close>

theorem enum_validation:
  "((truthy (q_status q) \<and> \<not> js_includes VALID_STATUSES (q_status q))
      \<or> (truthy (q_priority q) \<and> \<not> js_includes VALID_PRIORITIES (q_priority q)) \<longrightarrow>
     (\<exists>m. listTasks E d who q = (400, ErrorBody ''ValidationError'' m)))
   \<and> ((\<not> truthy (b_title b) \<or> (\<exists>s. b_title b = JStr s))
       \<and> ((truthy (b_status b) \<and> \<not> js_includes VALID_STATUSES (b_status b))
          \<or> (truthy (b_priority b) \<and> \<not> js_includes VALID_PRIORITIES (b_priority b))) \<longrightarrow>
     (\<exists>m. createTask E now uuid d who b = (d, (400, ErrorBody ''ValidationError'' m))))
   \<and> (select_task_owned d tid (i_id who) \<noteq> None
       \<and> ((truthy (b_status b) \<and> \<not> js_includes VALID_STATUSES (b_status b))
          \<or> (truthy (b_priority b) \<and> \<not> js_includes VALID_PRIORITIES (b_priority b))) \<longrightarrow>
     (\<exists>m. updateTask E now d who tid b = (d, (400, ErrorBody ''ValidationError'' m))))
   \<and> ((\<forall>xs. b_description b \<noteq> JArr xs) \<and> (\<forall>kvs. b_description b \<noteq> JObj kvs)
       \<and> (\<forall>xs. b_due_date b \<noteq> JArr xs) \<and> (\<forall>kvs. b_due_date b \<noteq> JObj kvs) \<longrightarrow>
      (\<forall>d' r. createTask E now uuid d who b = (d', (201, r)) \<longrightarrow>
        (\<exists>t. tasks d' = tasks d @ [t]
           \<and> t_status t \<in> set VALID_STATUSES \<and> t_priority t \<in> set VALID_PRIORITIES
           \<and> t_status t = (case b_status b of
                JStr x \<Rightarrow> if x = [] then ''pending'' else x | _ \<Rightarrow> ''pending'')
           \<and> t_priority t = (case b_priority b of
                JStr x \<Rightarrow> if x = [] then ''medium'' else x | _ \<Rightarrow> ''medium''))))
   \<and> (\<not> truthy (q_status q) \<longrightarrow>
        listTasks E d who q = listTasks E d who (q\<lparr> q_status := JUndefined \<rparr>))
   \<and> (\<not> truthy (q_priority q) \<longrightarrow>
        listTasks E d who q = listTasks E d who (q\<lparr> q_priority := JUndefined \<rparr>))"
proof -
  have c: "\<exists>t. tasks d' = tasks d @ [t]
           \<and> t_status t \<in> set VALID_STATUSES \<and> t_priority t \<in> set VALID_PRIORITIES
           \<and> t_status t = (case b_status b of
                JStr x \<Rightarrow> if x = [] then ''pending'' else x | _ \<Rightarrow> ''pending'')
           \<and> t_priority t = (case b_priority b of
                JStr x \<Rightarrow> if x = [] then ''medium'' else x | _ \<Rightarrow> ''medium'')"
    if "(\<forall>xs. b_description b \<noteq> JArr xs) \<and> (\<forall>kvs. b_description b \<noteq> JObj kvs)
       \<and> (\<forall>xs. b_due_date b \<noteq> JArr xs) \<and> (\<forall>kvs. b_due_date b \<noteq> JObj kvs)"
      and "createTask E now uuid d who b = (d', (201, r))" for d' r
    using createTask_success[OF that(2)] that(1) by auto
  have u: "\<exists>m. updateTask E now d who tid b = (d, (400, ErrorBody ''ValidationError'' m))"
    if "select_task_owned d tid (i_id who) \<noteq> None"
      and "(truthy (b_status b) \<and> \<not> js_includes VALID_STATUSES (b_status b))
          \<or> (truthy (b_priority b) \<and> \<not> js_includes VALID_PRIORITIES (b_priority b))"
    using that update_invalid by (cases "select_task_owned d tid (i_id who)") auto
  show ?thesis
    using list_invalid[of q E d who] create_invalid[of b E now uuid d who] u c
      list_falsy_status[of q E d who] list_falsy_priority[of q E d who]
    by blast
qed

theorem enum_validation_witness:
  "(\<exists>m. listTasks sample_env sample_db alice
          \<lparr> q_status = JUndefined, q_priority = JStr ''urgent'' \<rparr> =
        (400, ErrorBody ''ValidationError'' m))
   \<and> (\<exists>m. createTask sample_env 40 ''t9'' sample_db alice
          (no_fields\<lparr> b_title := JStr ''x'', b_priority := JStr ''urgent'' \<rparr>) =
        (sample_db, (400, ErrorBody ''ValidationError'' m)))
   \<and> (\<exists>m. updateTask sample_env 30 sample_db alice ''t1''
          (no_fields\<lparr> b_status := JStr ''done'' \<rparr>) =
        (sample_db, (400, ErrorBody ''ValidationError'' m)))
   \<and> (\<exists>t. tasks (fst (createTask sample_env 40 ''t9'' sample_db alice
                (no_fields\<lparr> b_title := JStr ''x'', b_status := JStr '''' \<rparr>))) =
          tasks sample_db @ [t] \<and> t_status t = ''pending'' \<and> t_priority t = ''medium'')
   \<and> listTasks sample_env sample_db alice \<lparr> q_status = JStr '''', q_priority = JUndefined \<rparr> =
       listTasks sample_env sample_db alice \<lparr> q_status = JUndefined, q_priority = JUndefined \<rparr>
   \<and> listTasks sample_env sample_db alice \<lparr> q_status = JUndefined, q_priority = JNull \<rparr> =
       listTasks sample_env sample_db alice \<lparr> q_status = JUndefined, q_priority = JUndefined \<rparr>"
proof -
  let ?q = "\<lparr> q_status = JUndefined, q_priority = JStr ''urgent'' \<rparr>"
  let ?b1 = "no_fields\<lparr> b_title := JStr ''x'', b_priority := JStr ''urgent'' \<rparr>"
  let ?b2 = "no_fields\<lparr> b_status := JStr ''done'' \<rparr>"
  let ?b3 = "no_fields\<lparr> b_title := JStr ''x'', b_status := JStr '''' \<rparr>"
  let ?res = "createTask sample_env 40 ''t9'' sample_db alice ?b3"
  have 1: "\<exists>m. listTasks sample_env sample_db alice ?q = (400, ErrorBody ''ValidationError'' m)"
    using enum_validation [where q = ?q and d = sample_db and who = alice and E = sample_env]
    by (simp add: VALID_PRIORITIES_def)
  have 2: "\<exists>m. createTask sample_env 40 ''t9'' sample_db alice ?b1 =
        (sample_db, (400, ErrorBody ''ValidationError'' m))"
    using enum_validation [where b = ?b1 and d = sample_db and who = alice
        and now = 40 and uuid = "''t9''" and E = sample_env]
    by (simp add: VALID_PRIORITIES_def no_fields_def)
  have own: "select_task_owned sample_db ''t1'' (i_id alice) \<noteq> None" by code_simp
  have 3: "\<exists>m. updateTask sample_env 30 sample_db alice ''t1'' ?b2 =
        (sample_db, (400, ErrorBody ''ValidationError'' m))"
    using enum_validation [where b = ?b2 and d = sample_db and who = alice
        and now = 30 and tid = "''t1''" and E = sample_env] own
    by (simp add: VALID_STATUSES_def no_fields_def)
  have "fst (snd ?res) = 201" by code_simp
  then have run: "createTask sample_env 40 ''t9'' sample_db alice ?b3 =
      (fst ?res, (201, snd (snd ?res)))"
    by (metis prod.collapse)
  have 4: "\<exists>t. tasks (fst ?res) = tasks sample_db @ [t]
      \<and> t_status t = ''pending'' \<and> t_priority t = ''medium''"
    using enum_validation [where b = ?b3 and d = sample_db and who = alice
        and now = 40 and uuid = "''t9''" and E = sample_env] run
    by (auto simp: no_fields_def)
  have 5: "listTasks sample_env sample_db alice \<lparr> q_status = JStr '''', q_priority = JUndefined \<rparr> =
       listTasks sample_env sample_db alice \<lparr> q_status = JUndefined, q_priority = JUndefined \<rparr>"
    using enum_validation
      [where q = "\<lparr> q_status = JStr '''', q_priority = JUndefined \<rparr>"
         and d = sample_db and who = alice and E = sample_env]
    by simp
  have 6: "listTasks sample_env sample_db alice \<lparr> q_status = JUndefined, q_priority = JNull \<rparr> =
       listTasks sample_env sample_db alice \<lparr> q_status = JUndefined, q_priority = JUndefined \<rparr>"
    using enum_validation
      [where q = "\<lparr> q_status = JUndefined, q_priority = JNull \<rparr>"
         and d = sample_db and who = alice and E = sample_env]
    by simp
  from 1 2 3 4 5 6 show ?thesis by blast
qed

text \<open>
  The claim as stated fails for a status sent as \<open>null\<close> to Create: the value is present
  and not in the enumeration, and the request is answered 201 with a row written.
\<close>

theorem create_null_status_counterexample:
  "\<not> js_includes VALID_STATUSES JNull
   \<and> fst (snd (createTask sample_env 40 ''t9'' sample_db alice
        (no_fields\<lparr> b_title := JStr ''x'', b_status := JNull \<rparr>))) = 201
   \<and> length (tasks (fst (createTask sample_env 40 ''t9'' sample_db alice
        (no_fields\<lparr> b_title := JStr ''x'', b_status := JNull \<rparr>)))) =
       Suc (length (tasks sample_db))"
  by code_simp

text \<open>
  Outside the bodies of the last part of the theorem: a description of two elements
  next to an empty due date fills the placeholders of description and status, and
  Create writes a row whose status was never validated.
\<close>

lemma create_array_shifts_columns:
  "fst (snd (createTask sample_env 40 ''t9'' sample_db alice
      (no_fields\<lparr> b_title := JStr ''x'',
                   b_description := JArr [JStr ''d'', JStr ''evil''],
                   b_due_date := JArr [] \<rparr>))) = 201
   \<and> map_option (\<lambda>t. (t_description t, t_status t, t_priority t, t_due_date t))
       (select_task
          (fst (createTask sample_env 40 ''t9'' sample_db alice
             (no_fields\<lparr> b_title := JStr ''x'',
                          b_description := JArr [JStr ''d'', JStr ''evil''],
                          b_due_date := JArr [] \<rparr>)))
          ''t9'') = Some (Some ''d'', ''evil'', ''pending'', Some ''medium'')"
  by code_simp

text \<open>
  Claim C10, as amended. For every Update of an existing owned task whose body has the
  title \<open>null\<close>, the store is left unchanged; when the status or the priority is truthy
  and outside its enumeration the answer is 400 \<open>ValidationError\<close> (validation comes
  before the title is read), and otherwise reading \<open>trim\<close> of \<open>null\<close> throws and the
  centralized handler answers 500 with the error's own name, \<open>TypeError\<close>, and the
  generic message.
\<close>

theorem update_null_title_throws:
  assumes "select_task_owned d tid (i_id who) \<noteq> None" and "b_title b = JNull"
  shows "fst (updateTask E now d who tid b) = d
    \<and> (if (truthy (b_status b) \<and> \<not> js_includes VALID_STATUSES (b_status b))
          \<or> (truthy (b_priority b) \<and> \<not> js_includes VALID_PRIORITIES (b_priority b))
       then \<exists>m. snd (updateTask E now d who tid b) = (400, ErrorBody ''ValidationError'' m)
       else snd (updateTask E now d who tid b) =
         (500, ErrorBody ''TypeError''
            ''An unexpected error occurred. Please try again later.''))"
proof -
  from assms(1) obtain old where old: "select_task_owned d tid (i_id who) = Some old"
    by auto
  show ?thesis
  proof (cases "(truthy (b_status b) \<and> \<not> js_includes VALID_STATUSES (b_status b))
          \<or> (truthy (b_priority b) \<and> \<not> js_includes VALID_PRIORITIES (b_priority b))")
    case True
    from update_invalid[OF old True] obtain m where
      "updateTask E now d who tid b = (d, (400, ErrorBody ''ValidationError'' m))" by blast
    with True show ?thesis by auto
  next
    case False
    then have "updateTask E now d who tid b =
      (d, (500, ErrorBody ''TypeError''
             ''An unexpected error occurred. Please try again later.''))"
      using update_null_title[OF old assms(2)] by blast
    with False show ?thesis by simp
  qed
qed

theorem update_null_title_throws_witness:
  "fst (updateTask sample_env 30 sample_db alice ''t1'' (no_fields\<lparr> b_title := JNull \<rparr>)) = sample_db
   \<and> snd (updateTask sample_env 30 sample_db alice ''t1'' (no_fields\<lparr> b_title := JNull \<rparr>)) =
       (500, ErrorBody ''TypeError'' ''An unexpected error occurred. Please try again later.'')
   \<and> fst (updateTask sample_env 30 sample_db alice ''t1''
        (no_fields\<lparr> b_title := JNull, b_priority := JStr ''urgent'' \<rparr>)) = sample_db
   \<and> (\<exists>m. snd (updateTask sample_env 30 sample_db alice ''t1''
        (no_fields\<lparr> b_title := JNull, b_priority := JStr ''urgent'' \<rparr>)) =
       (400, ErrorBody ''ValidationError'' m))"
proof -
  let ?b1 = "no_fields\<lparr> b_title := JNull \<rparr>"
  let ?b2 = "no_fields\<lparr> b_title := JNull, b_priority := JStr ''urgent'' \<rparr>"
  have own: "select_task_owned sample_db ''t1'' (i_id alice) \<noteq> None" by code_simp
  have ttl: "b_title ?b1 = JNull" "b_title ?b2 = JNull" by simp_all
  have 1: "fst (updateTask sample_env 30 sample_db alice ''t1'' ?b1) = sample_db
      \<and> snd (updateTask sample_env 30 sample_db alice ''t1'' ?b1) =
       (500, ErrorBody ''TypeError'' ''An unexpected error occurred. Please try again later.'')"
    using update_null_title_throws [OF own ttl(1), of sample_env 30]
    by (simp add: no_fields_def)
  have 2: "fst (updateTask sample_env 30 sample_db alice ''t1'' ?b2) = sample_db
      \<and> (\<exists>m. snd (updateTask sample_env 30 sample_db alice ''t1'' ?b2) =
            (400, ErrorBody ''ValidationError'' m))"
    using update_null_title_throws [OF own ttl(2), of sample_env 30]
    by (simp add: no_fields_def VALID_PRIORITIES_def)
  from 1 2 show ?thesis by blast
qed

text \<open>
  The claim as stated fails twice: the error kind of the 500 body is \<open>TypeError\<close>, not
  \<open>InternalServerError\<close>; and with an invalid status next to the \<open>null\<close> title the
  answer is 400, since nothing is thrown.
\<close>

theorem update_null_title_counterexample:
  "snd (updateTask sample_env 30 sample_db alice ''t1'' (no_fields\<lparr> b_title := JNull \<rparr>)) \<noteq>
     (500, ErrorBody ''InternalServerError''
        ''An unexpected error occurred. Please try again later.'')
   \<and> snd (updateTask sample_env 30 sample_db alice ''t1''
        (no_fields\<lparr> b_title := JNull, b_status := JStr ''done'' \<rparr>)) =
     (400, ErrorBody ''ValidationError''
        ''status must be one of: pending, in_progress, completed'')"
  by code_simp

text \<open>
  Claim C8 at its failing input: an Update whose title is three spaces succeeds and
  stores the empty title, which trimming leaves empty. Create does keep the invariant
  (\<open>create_title_nonempty\<close>).
\<close>

theorem update_blank_title_stored:
  "fst (snd (updateTask sample_env 30 sample_db alice ''t1'' (no_fields\<lparr> b_title := JStr ''   '' \<rparr>))) = 200
   \<and> map_option t_title
       (select_task
          (fst (updateTask sample_env 30 sample_db alice ''t1'' (no_fields\<lparr> b_title := JStr ''   '' \<rparr>)))
          ''t1'') = Some []
   \<and> trim [] = []"
  by code_simp

section \<open>Signup and login\<close>

lemma get_user_by_email_string:
  "get_user_by_email E d [JStr e] = Inr (find_user_by_email d (Some e))"
  by (simp add: get_user_by_email_def bind_all_def bind_next_def)

lemma run_insert_user_strings:
  "run_insert_user E now d [JStr uid, JStr e, JStr h, JStr n] =
     insert_user now d uid (Some e) (Some h) (Some n)"
  by (simp add: run_insert_user_def bind_all_def bind_next_def)

text \<open>
  With a string for the password, both failure paths of login give the same response.
\<close>

lemma login_wrong_string_password:
  assumes "l_email b = JStr e" and "e \<noteq> []" and "l_password b = JStr p" and "p \<noteq> []"
    and "find_user_by_email d (Some e) = None
       \<or> (\<exists>u. find_user_by_email d (Some e) = Some u \<and> \<not> bcrypt_compare E p (u_password u))"
  shows "login E d b = (401, ErrorBody ''InvalidCredentials'' ''Invalid email or password.'')"
  using assms
  by (auto simp: login_def login_try_def Let_def invalid_credentials_def
      get_user_by_email_string)

text \<open>
  With a truthy password that is not a string, the comparison throws for a registered
  email, and is never reached for an unregistered one.
\<close>

lemma login_nonstring_password:
  assumes "l_email b = JStr e" and "e \<noteq> []" and "truthy (l_password b)"
    and "\<forall>p. l_password b \<noteq> JStr p"
  shows "login E d b =
     (if find_user_by_email d (Some e) = None
      then (401, ErrorBody ''InvalidCredentials'' ''Invalid email or password.'')
      else (500, ErrorBody ''Error'' ''An unexpected error occurred. Please try again later.''))"
proof -
  from assms(4) have c: "compare_password E (l_password b) h = Inl IllegalArguments" for h
    by (cases "l_password b") auto
  show ?thesis
    using assms(1-3)
    by (cases "find_user_by_email d (Some e)")
      (auto simp: login_def login_try_def Let_def invalid_credentials_def
        get_user_by_email_string c errorHandler_def IllegalArguments_def)
qed

text \<open>
  Claim C6 at its failing input. Two login requests with both fields present and the
  password \<open>true\<close>: for the email of a registered user the comparison of the password
  with the stored hash throws, and the answer is 500 with the error name \<open>Error\<close>; for
  an email that matches no user the answer is 401 \<open>InvalidCredentials\<close>. The two
  failures differ, and tell which emails are registered.
\<close>

theorem login_nonstring_password_distinguishes:
  "truthy (JStr ''alice@x.com'') \<and> truthy (JStr ''zed@x.com'') \<and> truthy (JBool True)
   \<and> find_user_by_email sample_db (Some ''alice@x.com'') \<noteq> None
   \<and> find_user_by_email sample_db (Some ''zed@x.com'') = None
   \<and> login sample_env sample_db \<lparr> l_email = JStr ''alice@x.com'', l_password = JBool True \<rparr>
       = (500, ErrorBody ''Error'' ''An unexpected error occurred. Please try again later.'')
   \<and> login sample_env sample_db \<lparr> l_email = JStr ''zed@x.com'', l_password = JBool True \<rparr>
       = (401, ErrorBody ''InvalidCredentials'' ''Invalid email or password.'')"
  by code_simp

lemma signup_check_conflict:
  assumes "s_email b = JStr e" and "e \<noteq> []" and "truthy (s_name b)"
    and "truthy (s_password b)" and "length_less E (s_password b) 8 = Inr False"
    and "find_user_by_email d (Some e) \<noteq> None"
  shows "signup_check E d b = Inr (Some conflict)"
  using assms by (auto simp: signup_check_def Let_def get_user_by_email_string)

lemma signup_check_pass:
  assumes "s_email b = JStr e" and "e \<noteq> []" and "truthy (s_name b)"
    and "truthy (s_password b)" and "length_less E (s_password b) 8 = Inr False"
    and "find_user_by_email d (Some e) = None"
  shows "signup_check E d b = Inr None"
  using assms by (auto simp: signup_check_def Let_def get_user_by_email_string)

lemma signup_insert_duplicate:
  assumes "s_email b = JStr e" and "s_name b = JStr n" and "s_password b = JStr p"
    and "list_ex (\<lambda>u. u_email u = e) (users d)"
  shows "\<exists>m. signup_insert E now uuid d b = Inl (SqliteError m)"
  using assms
  by (auto simp: signup_insert_def Let_def run_insert_user_strings insert_user_def)

text \<open>
  Claim C3, as amended. For a signup request that passes validation: when the lookup
  finds the email, the response is 409 \<open>Conflict\<close> and the store is unchanged; when
  the lookup misses and, by the time the handler resumes from hashing, the store holds
  the email, the insert fails on the unique constraint, the error goes to the
  centralized handler, and the response is 500 with the error name \<open>SqliteError\<close> and
  the generic message, the store again unchanged.
\<close>

theorem signup_duplicate_email:
  assumes "s_email b = JStr e" and "e \<noteq> []" and "truthy (s_name b)"
    and "truthy (s_password b)" and "length_less E (s_password b) 8 = Inr False"
  shows "(find_user_by_email d0 (Some e) \<noteq> None \<longrightarrow>
      signup_async E now uuid d0 d1 b =
        (d0, (409, ErrorBody ''Conflict'' ''An account with this email already exists.'')))
    \<and> (find_user_by_email d0 (Some e) = None \<and> list_ex (\<lambda>u. u_email u = e) (users d1)
        \<and> (\<exists>n. s_name b = JStr n) \<and> (\<exists>p. s_password b = JStr p) \<longrightarrow>
      signup_async E now uuid d0 d1 b =
        (d1, (500, ErrorBody ''SqliteError''
                ''An unexpected error occurred. Please try again later.'')))"
proof (intro conjI impI)
  assume "find_user_by_email d0 (Some e) \<noteq> None"
  from signup_check_conflict[OF assms this]
  show "signup_async E now uuid d0 d1 b =
        (d0, (409, ErrorBody ''Conflict'' ''An account with this email already exists.''))"
    by (simp add: signup_async_def conflict_def)
next
  assume a: "find_user_by_email d0 (Some e) = None \<and> list_ex (\<lambda>u. u_email u = e) (users d1)
        \<and> (\<exists>n. s_name b = JStr n) \<and> (\<exists>p. s_password b = JStr p)"
  then obtain n p where np: "s_name b = JStr n" "s_password b = JStr p" by blast
  from a have pass: "signup_check E d0 b = Inr None"
    using signup_check_pass[OF assms] by blast
  from a signup_insert_duplicate[OF assms(1) np] obtain m where
    "signup_insert E now uuid d1 b = Inl (SqliteError m)" by blast
  with pass show "signup_async E now uuid d0 d1 b =
        (d1, (500, ErrorBody ''SqliteError''
                ''An unexpected error occurred. Please try again later.''))"
    by (simp add: signup_async_def errorHandler_def SqliteError_def)
qed

theorem signup_duplicate_email_witness:
  "signup_async sample_env 50 ''u4'' sample_db sample_db
     \<lparr> s_name = JStr ''Al'', s_email = JStr ''alice@x.com'', s_password = JStr ''longenough2'' \<rparr>
     = (sample_db, (409, ErrorBody ''Conflict'' ''An account with this email already exists.''))
   \<and> signup_async sample_env 50 ''u4'' sample_db sample_db_carol carol_signup
     = (sample_db_carol, (500, ErrorBody ''SqliteError''
          ''An unexpected error occurred. Please try again later.''))"
proof -
  let ?b = "\<lparr> s_name = JStr ''Al'', s_email = JStr ''alice@x.com'',
              s_password = JStr ''longenough2'' \<rparr>"
  have hit: "find_user_by_email sample_db (Some ''alice@x.com'') \<noteq> None" by code_simp
  have miss: "find_user_by_email sample_db (Some ''carol@x.com'') = None" by code_simp
  have late: "list_ex (\<lambda>u. u_email u = ''carol@x.com'') (users sample_db_carol)" by code_simp
  have 1: "signup_async sample_env 50 ''u4'' sample_db sample_db ?b =
      (sample_db, (409, ErrorBody ''Conflict'' ''An account with this email already exists.''))"
    using signup_duplicate_email
      [where b = ?b and e = "''alice@x.com''" and E = sample_env and ?d0.0 = sample_db
         and now = 50 and uuid = "''u4''" and ?d1.0 = sample_db] hit
    by simp
  have 2: "signup_async sample_env 50 ''u4'' sample_db sample_db_carol carol_signup =
      (sample_db_carol, (500, ErrorBody ''SqliteError''
          ''An unexpected error occurred. Please try again later.''))"
    using signup_duplicate_email
      [where b = carol_signup and e = "''carol@x.com''" and E = sample_env
         and ?d0.0 = sample_db and now = 50 and uuid = "''u4''" and ?d1.0 = sample_db_carol]
      miss late
    by (simp add: carol_signup_def)
  from 1 2 show ?thesis by simp
qed

text \<open>
  The claim as stated fails in the race it describes: two signups of Carol both pass the
  lookup on the sample store; the first inserts; the second resumes on the store that
  now holds her email, and is answered 500, not 409.
\<close>

theorem signup_race_counterexample:
  "signup_check sample_env sample_db carol_signup = Inr None
   \<and> sample_db_carol = fst (signup sample_env 49 ''u3'' sample_db carol_signup)
   \<and> fst (snd (signup sample_env 49 ''u3'' sample_db carol_signup)) = 201
   \<and> snd (signup_async sample_env 50 ''u4'' sample_db sample_db_carol carol_signup) =
       (500, ErrorBody ''SqliteError'' ''An unexpected error occurred. Please try again later.'')
   \<and> snd (signup_async sample_env 50 ''u4'' sample_db sample_db_carol carol_signup) \<noteq>
       (409, ErrorBody ''Conflict'' ''An account with this email already exists.'')"
  by code_simp

section \<open>Invariants along every run\<close>


lemma fk_ok_iff:
  "fk_ok d \<longleftrightarrow> (\<forall>t\<in>set (tasks d). \<exists>u\<in>set (users d). u_id u = t_user_id t)"
  by (simp add: fk_ok_def list_all_iff list_ex_iff)

lemma insert_user_Inr:
  assumes "insert_user now d uid email pw name = Inr d'"
  shows "\<exists>em pwd nm. email = Some em \<and> pw = Some pwd \<and> name = Some nm
    \<and> \<not> list_ex (\<lambda>u. u_id u = uid) (users d) \<and> \<not> list_ex (\<lambda>u. u_email u = em) (users d)
    \<and> d' = d\<lparr> users := users d @
             [\<lparr> u_id = uid, u_email = em, u_password = pwd, u_name = nm,
                u_created_at = now \<rparr>] \<rparr>"
  using assms unfolding insert_user_def
  by (cases email; cases pw; cases name) (auto split: if_splits)

lemma run_insert_user_Inr:
  assumes "run_insert_user E now d args = Inr d'"
  shows "\<exists>u. d' = d\<lparr> users := users d @ [u] \<rparr>
     \<and> \<not> list_ex (\<lambda>x. u_email x = u_email u) (users d)"
proof -
  from assms obtain uid email pw name where
    "insert_user now d uid email pw name = Inr d'"
    by (auto simp: run_insert_user_def split: sum.splits list.splits option.splits)
  from insert_user_Inr[OF this] show ?thesis by auto
qed

lemma signup_insert_db:
  assumes "signup_insert E now uuid d b = Inr r"
  shows "\<exists>u. fst r = d\<lparr> users := users d @ [u] \<rparr>
     \<and> \<not> list_ex (\<lambda>x. u_email x = u_email u) (users d)"
proof -
  from assms obtain args where "run_insert_user E now d args = Inr (fst r)"
    unfolding signup_insert_def Let_def by (auto split: sum.splits)
  from run_insert_user_Inr[OF this] show ?thesis .
qed

lemma signup_resume_db:
  "apply_op E d (SignupResume now uuid b) = d
   \<or> (\<exists>u. apply_op E d (SignupResume now uuid b) = d\<lparr> users := users d @ [u] \<rparr>
        \<and> \<not> list_ex (\<lambda>x. u_email x = u_email u) (users d))"
  by (cases "signup_insert E now uuid d b") (auto dest: signup_insert_db)

lemma signup_db:
  "fst (signup E now uuid d b) = d
   \<or> (\<exists>u. fst (signup E now uuid d b) = d\<lparr> users := users d @ [u] \<rparr>
        \<and> \<not> list_ex (\<lambda>x. u_email x = u_email u) (users d))"
  unfolding signup_def signup_async_def
  by (auto split: sum.splits option.splits dest: signup_insert_db)

lemma createTask_try_db:
  assumes "createTask_try E now uuid d who b = Inr r"
  shows "fst r = d
    \<or> (\<exists>t. fst r = d\<lparr> tasks := tasks d @ [t] \<rparr> \<and> t_id t = uuid \<and> t_user_id t = i_id who
          \<and> \<not> list_ex (\<lambda>t. t_id t = uuid) (tasks d)
          \<and> list_ex (\<lambda>u. u_id u = i_id who) (users d))"
proof -
  from assms have "fst r = d
      \<or> (\<exists>s rest. run_insert_task E now d (JStr uuid # JStr (i_id who) # JStr s # rest) =
            Inr (fst r))"
    unfolding createTask_try_def Let_def by (auto split: sum.splits if_splits)
  then show ?thesis
  proof
    assume "fst r = d"
    then show ?thesis by simp
  next
    assume "\<exists>s rest. run_insert_task E now d (JStr uuid # JStr (i_id who) # JStr s # rest) =
            Inr (fst r)"
    then obtain s rest where
      "run_insert_task E now d (JStr uuid # JStr (i_id who) # JStr s # rest) = Inr (fst r)"
      by blast
    from run_insert_task_Inr[OF this] obtain tid uid ti de st pr du where
        bound: "bind_all E 7 (JStr uuid # JStr (i_id who) # JStr s # rest) =
          Inr [Some tid, Some uid, Some ti, de, Some st, Some pr, du]"
      and new: "\<not> list_ex (\<lambda>t. t_id t = tid) (tasks d)" "list_ex (\<lambda>u. u_id u = uid) (users d)"
      and d': "fst r = d\<lparr> tasks := tasks d @
             [\<lparr> t_id = tid, t_user_id = uid, t_title = ti, t_description = de,
                t_status = st, t_priority = pr, t_due_date = du,
                t_created_at = now, t_updated_at = now \<rparr>] \<rparr>"
      by blast
    from bind_all_three_strings[OF bound] have "tid = uuid" "uid = i_id who" by auto
    with new d' show ?thesis by auto
  qed
qed

lemma createTask_db:
  "fst (createTask E now uuid d who b) = d
    \<or> (\<exists>t. fst (createTask E now uuid d who b) = d\<lparr> tasks := tasks d @ [t] \<rparr>
          \<and> t_id t = uuid \<and> t_user_id t = i_id who
          \<and> \<not> list_ex (\<lambda>t. t_id t = uuid) (tasks d)
          \<and> list_ex (\<lambda>u. u_id u = i_id who) (users d))"
  using createTask_try_db[of E now uuid d who b]
  by (cases "createTask_try E now uuid d who b") (auto simp: createTask_def)

lemma update_task_db:
  assumes "update_task now d p1 p2 p3 p4 p5 w_id w_user = Inr d'"
  shows "\<exists>f. d' = d\<lparr> tasks := map f (tasks d) \<rparr>
     \<and> (\<forall>t. t_id (f t) = t_id t \<and> t_user_id (f t) = t_user_id t)"
proof (cases "list_ex (\<lambda>t. eq_param (t_id t) w_id \<and> eq_param (t_user_id t) w_user) (tasks d)")
  case True
  with assms obtain ti st pr where
    d': "d' = d\<lparr> tasks := map (\<lambda>t. if eq_param (t_id t) w_id \<and> eq_param (t_user_id t) w_user
                 then t\<lparr> t_title := ti, t_description := p2, t_status := st,
                        t_priority := pr, t_due_date := p5, t_updated_at := now \<rparr>
                 else t) (tasks d) \<rparr>"
    unfolding update_task_def by (cases p1; cases p3; cases p4) auto
  show ?thesis
    by (rule exI[of _ "\<lambda>t. if eq_param (t_id t) w_id \<and> eq_param (t_user_id t) w_user
                 then t\<lparr> t_title := ti, t_description := p2, t_status := st,
                        t_priority := pr, t_due_date := p5, t_updated_at := now \<rparr>
                 else t"]) (simp add: d')
next
  case False
  with assms have "d' = d" by (simp add: update_task_def)
  then show ?thesis by (intro exI[of _ "\<lambda>t. t"]) simp
qed

lemma run_update_task_db:
  assumes "run_update_task E now d args = Inr d'"
  shows "\<exists>f. d' = d\<lparr> tasks := map f (tasks d) \<rparr>
     \<and> (\<forall>t. t_id (f t) = t_id t \<and> t_user_id (f t) = t_user_id t)"
proof -
  from assms obtain p1 p2 p3 p4 p5 w_id w_user where
    "update_task now d p1 p2 p3 p4 p5 w_id w_user = Inr d'"
    by (auto simp: run_update_task_def split: sum.splits list.splits)
  from update_task_db[OF this] show ?thesis .
qed

lemma updateTask_try_db:
  assumes "updateTask_try E now d who tid b = Inr r"
  shows "\<exists>f. fst r = d\<lparr> tasks := map f (tasks d) \<rparr>
     \<and> (\<forall>t. t_id (f t) = t_id t \<and> t_user_id (f t) = t_user_id t)"
proof -
  have same: "\<exists>f. d = d\<lparr> tasks := map f (tasks d) \<rparr>
     \<and> (\<forall>t. t_id (f t) = t_id t \<and> t_user_id (f t) = t_user_id t)"
    by (intro exI[of _ "\<lambda>t. t"]) simp
  from assms have "fst r = d \<or> (\<exists>args. run_update_task E now d args = Inr (fst r))"
    unfolding updateTask_try_def Let_def
    by (auto split: option.splits sum.splits if_splits)
  with same run_update_task_db show ?thesis by metis
qed

lemma updateTask_db:
  "\<exists>f. fst (updateTask E now d who tid b) = d\<lparr> tasks := map f (tasks d) \<rparr>
     \<and> (\<forall>t. t_id (f t) = t_id t \<and> t_user_id (f t) = t_user_id t)"
proof (cases "updateTask_try E now d who tid b")
  case (Inl e)
  then have "fst (updateTask E now d who tid b) = d" by (simp add: updateTask_def)
  then show ?thesis by (intro exI[of _ "\<lambda>t. t"]) simp
next
  case (Inr r)
  with updateTask_try_db[OF Inr] show ?thesis by (simp add: updateTask_def)
qed

lemma deleteTask_db:
  "fst (deleteTask d who tid) =
     d\<lparr> tasks := filter (\<lambda>t. \<not> (t_id t = tid \<and> t_user_id t = i_id who)) (tasks d) \<rparr>"
  by (simp add: deleteTask_def delete_task_def Let_def)

lemma delete_user_fk: "fk_ok d \<Longrightarrow> fk_ok (delete_user d uid)"
  unfolding fk_ok_iff delete_user_def by fastforce

lemma fk_users_append: "fk_ok d \<Longrightarrow> fk_ok (d\<lparr> users := users d @ [u] \<rparr>)"
  unfolding fk_ok_iff by fastforce

lemma fk_tasks_append:
  "fk_ok d \<Longrightarrow> list_ex (\<lambda>u. u_id u = t_user_id t) (users d) \<Longrightarrow>
   fk_ok (d\<lparr> tasks := tasks d @ [t] \<rparr>)"
  unfolding fk_ok_iff by (fastforce simp: list_ex_iff)

lemma fk_tasks_map:
  "fk_ok d \<Longrightarrow> \<forall>t. t_id (f t) = t_id t \<and> t_user_id (f t) = t_user_id t \<Longrightarrow>
   fk_ok (d\<lparr> tasks := map f (tasks d) \<rparr>)"
  unfolding fk_ok_iff by fastforce

lemma fk_tasks_filter: "fk_ok d \<Longrightarrow> fk_ok (d\<lparr> tasks := filter P (tasks d) \<rparr>)"
  unfolding fk_ok_iff by fastforce

lemma pk_users_append: "pk_ok d \<Longrightarrow> pk_ok (d\<lparr> users := users d @ [u] \<rparr>)"
  by (simp add: pk_ok_def)

lemma pk_tasks_append:
  "pk_ok d \<Longrightarrow> \<not> list_ex (\<lambda>x. t_id x = t_id t) (tasks d) \<Longrightarrow>
   pk_ok (d\<lparr> tasks := tasks d @ [t] \<rparr>)"
  by (fastforce simp: pk_ok_def list_ex_iff)

lemma pk_tasks_map:
  assumes "pk_ok d" and "\<forall>t. t_id (f t) = t_id t \<and> t_user_id (f t) = t_user_id t"
  shows "pk_ok (d\<lparr> tasks := map f (tasks d) \<rparr>)"
proof -
  from assms(2) have "map t_id (map f (tasks d)) = map t_id (tasks d)" by simp
  with assms(1) show ?thesis unfolding pk_ok_def by (simp del: map_map)
qed

lemma pk_tasks_filter: "pk_ok d \<Longrightarrow> pk_ok (d\<lparr> tasks := filter P (tasks d) \<rparr>)"
  by (simp add: pk_ok_def distinct_map_filter)

lemma email_users_append:
  "email_ok d \<Longrightarrow> \<not> list_ex (\<lambda>x. u_email x = u_email u) (users d) \<Longrightarrow>
   email_ok (d\<lparr> users := users d @ [u] \<rparr>)"
  by (fastforce simp: email_ok_def list_ex_iff)

lemma email_tasks: "email_ok d \<Longrightarrow> email_ok (d\<lparr> tasks := ts \<rparr>)"
  by (simp add: email_ok_def)

text \<open>
  What each step does to the store: nothing, one more user with a new email, one more
  task with a new id and an existing owner, the tasks mapped by a function that keeps id
  and owner, the tasks filtered, or a user deleted with the tasks it owns.
\<close>

lemma apply_op_shape:
  "apply_op E d x = d
   \<or> (\<exists>u. apply_op E d x = d\<lparr> users := users d @ [u] \<rparr>
        \<and> \<not> list_ex (\<lambda>x. u_email x = u_email u) (users d))
   \<or> (\<exists>t. apply_op E d x = d\<lparr> tasks := tasks d @ [t] \<rparr>
        \<and> \<not> list_ex (\<lambda>x. t_id x = t_id t) (tasks d)
        \<and> list_ex (\<lambda>u. u_id u = t_user_id t) (users d))
   \<or> (\<exists>f. apply_op E d x = d\<lparr> tasks := map f (tasks d) \<rparr>
        \<and> (\<forall>t. t_id (f t) = t_id t \<and> t_user_id (f t) = t_user_id t))
   \<or> (\<exists>P. apply_op E d x = d\<lparr> tasks := filter P (tasks d) \<rparr>)
   \<or> (\<exists>uid. apply_op E d x = delete_user d uid)"
proof (cases x)
  case (Signup now uuid b)
  with signup_db[of E now uuid d b] show ?thesis by auto
next
  case (SignupResume now uuid b)
  with signup_resume_db[of E d now uuid b] show ?thesis by metis
next
  case (CreateTask now uuid who b)
  from createTask_db[of E now uuid d who b]
  consider "fst (createTask E now uuid d who b) = d"
    | t where "fst (createTask E now uuid d who b) = d\<lparr> tasks := tasks d @ [t] \<rparr>"
        "t_id t = uuid" "t_user_id t = i_id who"
        "\<not> list_ex (\<lambda>t. t_id t = uuid) (tasks d)"
        "list_ex (\<lambda>u. u_id u = i_id who) (users d)"
    by blast
  then show ?thesis
  proof cases
    case 1
    with CreateTask show ?thesis by simp
  next
    case 2
    then have "apply_op E d x = d\<lparr> tasks := tasks d @ [t] \<rparr>
        \<and> \<not> list_ex (\<lambda>x. t_id x = t_id t) (tasks d)
        \<and> list_ex (\<lambda>u. u_id u = t_user_id t) (users d)"
      using CreateTask by simp
    then show ?thesis by blast
  qed
next
  case (UpdateTask now who tid b)
  with updateTask_db[of E now d who tid b] show ?thesis by auto
next
  case (DeleteTask who tid)
  then have "apply_op E d x =
      d\<lparr> tasks := filter (\<lambda>t. \<not> (t_id t = tid \<and> t_user_id t = i_id who)) (tasks d) \<rparr>"
    by (simp add: deleteTask_db)
  then show ?thesis by blast
next
  case (DeleteUser uid)
  then have "apply_op E d x = delete_user d uid" by simp
  then show ?thesis by blast
qed

lemma delete_user_pk: "pk_ok d \<Longrightarrow> pk_ok (delete_user d uid)"
  by (simp add: pk_ok_def delete_user_def distinct_map_filter)

lemma delete_user_email: "email_ok d \<Longrightarrow> email_ok (delete_user d uid)"
  by (simp add: email_ok_def delete_user_def distinct_map_filter)

lemma apply_op_fk: "fk_ok d \<Longrightarrow> fk_ok (apply_op E d x)"
  using apply_op_shape[of E d x]
  by (elim disjE exE conjE)
     (simp_all add: fk_users_append fk_tasks_append fk_tasks_map fk_tasks_filter delete_user_fk)

lemma apply_op_pk: "pk_ok d \<Longrightarrow> pk_ok (apply_op E d x)"
  using apply_op_shape[of E d x]
  by (elim disjE exE conjE)
     (simp_all add: pk_users_append pk_tasks_append pk_tasks_map pk_tasks_filter delete_user_pk)

lemma apply_op_email: "email_ok d \<Longrightarrow> email_ok (apply_op E d x)"
  using apply_op_shape[of E d x]
  by (elim disjE exE conjE)
     (simp_all add: email_users_append email_tasks delete_user_email)

lemma run_fk: "fk_ok (run E ops)"
proof -
  have "fk_ok d \<Longrightarrow> fk_ok (foldl (apply_op E) d ops)" for d
    by (induction ops arbitrary: d) (simp_all add: apply_op_fk)
  then show ?thesis unfolding run_def by (simp add: fk_ok_def empty_db_def)
qed

lemma run_pk: "pk_ok (run E ops)"
proof -
  have "pk_ok d \<Longrightarrow> pk_ok (foldl (apply_op E) d ops)" for d
    by (induction ops arbitrary: d) (simp_all add: apply_op_pk)
  then show ?thesis unfolding run_def by (simp add: pk_ok_def empty_db_def)
qed

lemma run_email: "email_ok (run E ops)"
proof -
  have "email_ok d \<Longrightarrow> email_ok (foldl (apply_op E) d ops)" for d
    by (induction ops arbitrary: d) (simp_all add: apply_op_email)
  then show ?thesis unfolding run_def by (simp add: email_ok_def empty_db_def)
qed

section \<open>Deleting a user\<close>

lemma getTask_200:
  assumes "getTask d who tid = (200, TaskBody t)"
  shows "t \<in> set (tasks d) \<and> t_id t = tid \<and> t_user_id t = i_id who"
proof -
  from assms have "select_task_owned d tid (i_id who) = Some t"
    by (cases "select_task_owned d tid (i_id who)") (auto simp: getTask_def not_found_def)
  then show ?thesis
    unfolding select_task_owned_def by (auto simp: find_Some_iff in_set_conv_nth)
qed

lemma listTasks_200:
  assumes "listTasks E d who q = (200, TaskList n rows)"
  shows "set rows \<subseteq> {t \<in> set (tasks d). t_user_id t = i_id who}"
proof (cases "(truthy (q_status q) \<and> \<not> js_includes VALID_STATUSES (q_status q))
      \<or> (truthy (q_priority q) \<and> \<not> js_includes VALID_PRIORITIES (q_priority q))")
  case True
  from list_invalid[OF True, of E d who] assms show ?thesis by auto
next
  case False
  then have "\<not> truthy (q_status q) \<or> js_includes VALID_STATUSES (q_status q)"
    and "\<not> truthy (q_priority q) \<or> js_includes VALID_PRIORITIES (q_priority q)"
    by blast+
  from listTasks_valid[OF this, of E d who] assms show ?thesis by auto
qed

lemma delete_user_tasks:
  assumes "list_ex (\<lambda>u. u_id u = uid) (users d)"
  shows "tasks (delete_user d uid) = filter (\<lambda>t. t_user_id t \<noteq> uid) (tasks d)"
    and "users (delete_user d uid) = filter (\<lambda>u. u_id u \<noteq> uid) (users d)"
  using assms by (simp_all add: delete_user_def)

lemma deleted_task_absent:
  assumes "list_ex (\<lambda>u. u_id u = uid) (users d)" and "pk_ok d"
    and "t \<in> set (tasks d)" and "t_user_id t = uid"
  shows "getTask (delete_user d uid) who (t_id t) = (404, ErrorBody ''NotFound'' ''Task not found.'')"
proof -
  have "x \<in> set (tasks (delete_user d uid)) \<Longrightarrow> t_id x \<noteq> t_id t" for x
  proof
    assume x: "x \<in> set (tasks (delete_user d uid))" and same: "t_id x = t_id t"
    from x have "x \<in> set (tasks d)" "t_user_id x \<noteq> uid"
      by (simp_all add: delete_user_tasks(1)[OF assms(1)])
    with pk_same_id[OF assms(2,3) _ same] assms(4) show False by blast
  qed
  then have "select_task_owned (delete_user d uid) (t_id t) (i_id who) = None"
    unfolding select_task_owned_def find_None_iff2 by blast
  then show ?thesis by (simp add: getTask_def not_found_def)
qed

text \<open>
  Claim C5. Deleting an existing user row removes exactly the task rows that user owns
  (and the user row); afterwards no Get returns a task of that owner, no List returns
  one, and in a store with unique task ids a Get on the id of any of those tasks answers
  404 \<open>NotFound\<close> for every caller. The foreign key is an invariant: the deletion
  keeps it, and it holds in every store that a run of the service reaches from the empty
  store.
\<close>

theorem cascade_on_owner_deletion:
  "(list_ex (\<lambda>u. u_id u = uid) (users d) \<longrightarrow>
      tasks (delete_user d uid) = filter (\<lambda>t. t_user_id t \<noteq> uid) (tasks d)
    \<and> users (delete_user d uid) = filter (\<lambda>u. u_id u \<noteq> uid) (users d)
    \<and> (\<forall>who tid t. getTask (delete_user d uid) who tid = (200, TaskBody t) \<longrightarrow>
          t_user_id t \<noteq> uid)
    \<and> (\<forall>who q n rows. listTasks E (delete_user d uid) who q = (200, TaskList n rows) \<longrightarrow>
          (\<forall>t\<in>set rows. t_user_id t \<noteq> uid))
    \<and> (pk_ok d \<longrightarrow> (\<forall>t\<in>set (tasks d). t_user_id t = uid \<longrightarrow>
          (\<forall>who. getTask (delete_user d uid) who (t_id t) =
             (404, ErrorBody ''NotFound'' ''Task not found.'')))))
   \<and> (fk_ok d \<longrightarrow> fk_ok (delete_user d uid))
   \<and> fk_ok (run E ops)"
proof (intro conjI impI allI ballI)
  assume ex: "list_ex (\<lambda>u. u_id u = uid) (users d)"
  show "tasks (delete_user d uid) = filter (\<lambda>t. t_user_id t \<noteq> uid) (tasks d)"
    by (rule delete_user_tasks(1)[OF ex])
  show "users (delete_user d uid) = filter (\<lambda>u. u_id u \<noteq> uid) (users d)"
    by (rule delete_user_tasks(2)[OF ex])
next
  fix who tid t
  assume ex: "list_ex (\<lambda>u. u_id u = uid) (users d)"
    and "getTask (delete_user d uid) who tid = (200, TaskBody t)"
  from getTask_200[OF this(2)] show "t_user_id t \<noteq> uid"
    by (auto simp: delete_user_tasks(1)[OF ex])
next
  fix who q n rows t
  assume ex: "list_ex (\<lambda>u. u_id u = uid) (users d)"
    and "listTasks E (delete_user d uid) who q = (200, TaskList n rows)"
    and "t \<in> set rows"
  with listTasks_200[OF this(2)] show "t_user_id t \<noteq> uid"
    by (auto simp: delete_user_tasks(1)[OF ex])
next
  fix t who
  assume "list_ex (\<lambda>u. u_id u = uid) (users d)" "pk_ok d" "t \<in> set (tasks d)"
    "t_user_id t = uid"
  then show "getTask (delete_user d uid) who (t_id t) =
      (404, ErrorBody ''NotFound'' ''Task not found.'')"
    by (rule deleted_task_absent)
next
  assume "fk_ok d"
  then show "fk_ok (delete_user d uid)" by (rule delete_user_fk)
next
  show "fk_ok (run E ops)" by (rule run_fk)
qed

theorem cascade_on_owner_deletion_witness:
  "tasks (delete_user sample_db ''u1'') = [task3]
   \<and> getTask (delete_user sample_db ''u1'') alice ''t1'' =
       (404, ErrorBody ''NotFound'' ''Task not found.'')
   \<and> getTask (delete_user sample_db ''u1'') bob ''t3'' = (200, TaskBody task3)
   \<and> t_user_id task3 \<noteq> ''u1''
   \<and> listTasks sample_env (delete_user sample_db ''u1'') alice
         \<lparr> q_status = JUndefined, q_priority = JUndefined \<rparr> = (200, TaskList 0 [])
   \<and> fk_ok (delete_user sample_db ''u1'')
   \<and> fk_ok (run sample_env
        [Signup 1 ''u3'' carol_signup,
         CreateTask 2 ''t1'' \<lparr> i_id = ''u3'', i_email = JStr ''carol@x.com'' \<rparr>
           (no_fields\<lparr> b_title := JStr ''plan'' \<rparr>),
         DeleteUser ''u3''])"
proof -
  let ?ops = "[Signup 1 ''u3'' carol_signup,
         CreateTask 2 ''t1'' \<lparr> i_id = ''u3'', i_email = JStr ''carol@x.com'' \<rparr>
           (no_fields\<lparr> b_title := JStr ''plan'' \<rparr>),
         DeleteUser ''u3'']"
  note c = cascade_on_owner_deletion [of "''u1''" sample_db sample_env ?ops]
  have ex: "list_ex (\<lambda>u. u_id u = ''u1'') (users sample_db)" by code_simp
  have pk: "pk_ok sample_db" by code_simp
  have fk: "fk_ok sample_db" by code_simp
  have mem: "task1 \<in> set (tasks sample_db)" "t_user_id task1 = ''u1''" "t_id task1 = ''t1''"
    by (simp_all add: sample_db_def task1_def)
  have flt: "filter (\<lambda>t. t_user_id t \<noteq> ''u1'') (tasks sample_db) = [task3]" by code_simp
  have get3: "getTask (delete_user sample_db ''u1'') bob ''t3'' = (200, TaskBody task3)"
    by code_simp
  have lst: "listTasks sample_env (delete_user sample_db ''u1'') alice
         \<lparr> q_status = JUndefined, q_priority = JUndefined \<rparr> = (200, TaskList 0 [])"
    by code_simp
  from c ex flt have 1: "tasks (delete_user sample_db ''u1'') = [task3]" by simp
  from c ex pk mem have 2: "getTask (delete_user sample_db ''u1'') alice ''t1'' =
       (404, ErrorBody ''NotFound'' ''Task not found.'')" by metis
  from c ex get3 have 3: "t_user_id task3 \<noteq> ''u1''" by blast
  from c fk have 4: "fk_ok (delete_user sample_db ''u1'')" by blast
  from c have 5: "fk_ok (run sample_env ?ops)" by blast
  from 1 2 3 4 5 get3 lst show ?thesis by blast
qed

end
